theory Spec2Isabelle
  imports Complex_Main
begin

section \<open>Strings of the source language\<close>

text \<open>
  A JavaScript string is modelled as a \<^typ>\<open>string\<close>: one \<^typ>\<open>char\<close> per UTF-16 code
  unit, for code units below 256.  The functions below are the \<open>String.prototype\<close>
  methods the engine calls.
\<close>

fun startsWith :: "string \<Rightarrow> string \<Rightarrow> bool" where
  "startsWith s [] = True"
| "startsWith [] (c # t) = False"
| "startsWith (x # s) (c # t) = (x = c \<and> startsWith s t)"

fun str_includes :: "string \<Rightarrow> string \<Rightarrow> bool" where
  "str_includes [] t = (t = [])"
| "str_includes (x # s) t = (startsWith (x # s) t \<or> str_includes s t)"

fun split_on :: "char \<Rightarrow> string \<Rightarrow> string list" where
  "split_on d [] = [[]]"
| "split_on d (x # xs) =
     (if x = d then [] # split_on d xs
      else (case split_on d xs of [] \<Rightarrow> [[x]] | l # ls \<Rightarrow> (x # l) # ls))"

fun join :: "string \<Rightarrow> string list \<Rightarrow> string" where
  "join sep [] = []"
| "join sep [x] = x"
| "join sep (x # y # ys) = x @ sep @ join sep (y # ys)"

definition is_space :: "char \<Rightarrow> bool" where
  "is_space c = (c \<in> set [CHR 0x09, CHR 0x0A, CHR 0x0B, CHR 0x0C, CHR 0x0D, CHR 0x20, CHR 0xA0])"

definition trim :: "string \<Rightarrow> string" where
  "trim s = rev (dropWhile is_space (rev (dropWhile is_space s)))"

definition is_upper :: "char \<Rightarrow> bool" where
  "is_upper c = (of_char CHR ''A'' \<le> (of_char c :: nat) \<and> (of_char c :: nat) \<le> of_char CHR ''Z'')"

definition is_lower :: "char \<Rightarrow> bool" where
  "is_lower c = (of_char CHR ''a'' \<le> (of_char c :: nat) \<and> (of_char c :: nat) \<le> of_char CHR ''z'')"

definition is_digit :: "char \<Rightarrow> bool" where
  "is_digit c = (of_char CHR ''0'' \<le> (of_char c :: nat) \<and> (of_char c :: nat) \<le> of_char CHR ''9'')"

definition is_word :: "char \<Rightarrow> bool" where
  "is_word c = (is_upper c \<or> is_lower c \<or> is_digit c \<or> c = CHR ''_'')"

definition toUpperCase_char :: "char \<Rightarrow> char" where
  "toUpperCase_char c = (if is_lower c then char_of (of_char c - (32::nat)) else c)"

definition toUpperCase :: "string \<Rightarrow> string" where
  "toUpperCase s = map toUpperCase_char s"


definition count_char :: "char \<Rightarrow> string \<Rightarrow> nat" where
  "count_char c s = length (filter (\<lambda>x. x = c) s)"

section \<open>Regular expressions\<close>

text \<open>
  The engine's regular expressions are matched by a backtracking matcher that lists the
  successful matches in the priority order of the ECMAScript semantics (leftmost
  alternative first, greedy repetition first); the first element is the match the
  JavaScript engine reports.  A match state holds the character before the current
  position (for \<open>^\<close> and \<open>\b\<close>), the remaining input and the capture groups.
\<close>

datatype re =
    Sym "char \<Rightarrow> bool"
  | Eps
  | Seq re re
  | Alt re re
  | Star re
  | Grp nat re
  | Bol
  | Eol
  | Wb

record mstate =
  prev :: "char option"
  rest :: string
  caps :: "(nat \<times> string) list"

definition word_before :: "mstate \<Rightarrow> bool" where
  "word_before m = (case prev m of None \<Rightarrow> False | Some c \<Rightarrow> is_word c)"

definition word_after :: "mstate \<Rightarrow> bool" where
  "word_after m = (case rest m of [] \<Rightarrow> False | c # _ \<Rightarrow> is_word c)"

function rmatch :: "re \<Rightarrow> mstate \<Rightarrow> mstate list" where
  "rmatch (Sym P) m =
     (case rest m of [] \<Rightarrow> []
      | x # xs \<Rightarrow> if P x then [m\<lparr>prev := Some x, rest := xs\<rparr>] else [])"
| "rmatch Eps m = [m]"
| "rmatch (Seq a b) m = concat (map (rmatch b) (rmatch a m))"
| "rmatch (Alt a b) m = rmatch a m @ rmatch b m"
| "rmatch (Star a) m =
     concat (map (\<lambda>m'. if length (rest m') < length (rest m) then rmatch (Star a) m' else [])
                 (rmatch a m)) @ [m]"
| "rmatch (Grp n a) m =
     map (\<lambda>m'. m'\<lparr>caps := (n, take (length (rest m) - length (rest m')) (rest m)) # caps m'\<rparr>)
         (rmatch a m)"
| "rmatch Bol m = (if prev m = None then [m] else [])"
| "rmatch Eol m = (if rest m = [] then [m] else [])"
| "rmatch Wb m = (if word_before m \<noteq> word_after m then [m] else [])"
  by pat_completeness auto
termination
  by (relation "inv_image (less_than <*lex*> less_than) (\<lambda>(r, m). (size r, length (rest m)))")
     auto

text \<open>\<open>String.prototype.match\<close> without the \<open>g\<close> flag: the leftmost start position
  that has a match, and there the match of highest priority.\<close>

fun rsearch_from :: "re \<Rightarrow> char option \<Rightarrow> string \<Rightarrow> mstate option" where
  "rsearch_from r p [] =
     (case rmatch r \<lparr>prev = p, rest = [], caps = []\<rparr> of [] \<Rightarrow> None | m # _ \<Rightarrow> Some m)"
| "rsearch_from r p (x # xs) =
     (case rmatch r \<lparr>prev = p, rest = x # xs, caps = []\<rparr> of
        [] \<Rightarrow> rsearch_from r (Some x) xs
      | m # _ \<Rightarrow> Some m)"

definition re_test :: "re \<Rightarrow> string \<Rightarrow> bool" where
  "re_test r s = (rsearch_from r None s \<noteq> None)"

definition re_group :: "re \<Rightarrow> string \<Rightarrow> nat \<Rightarrow> string option" where
  "re_group r s n = (case rsearch_from r None s of None \<Rightarrow> None | Some m \<Rightarrow> map_of (caps m) n)"

definition Chr :: "char \<Rightarrow> re" where
  "Chr c = Sym (\<lambda>x. x = c)"

definition Str :: "string \<Rightarrow> re" where
  "Str s = foldr (\<lambda>c r. Seq (Chr c) r) s Eps"

definition Plus :: "re \<Rightarrow> re" where
  "Plus r = Seq r (Star r)"

definition Opt :: "re \<Rightarrow> re" where
  "Opt r = Alt r Eps"

definition Seqs :: "re list \<Rightarrow> re" where
  "Seqs rs = foldr Seq rs Eps"

fun Alts :: "re list \<Rightarrow> re" where
  "Alts [] = Sym (\<lambda>x. False)"
| "Alts [r] = r"
| "Alts (r # rs) = Alt r (Alts rs)"

text \<open>The character classes \<open>\s\<close>, \<open>\w\<close> and \<open>.\<close> (any character but a line terminator).\<close>

definition re_s :: re where
  "re_s = Sym is_space"

definition re_w :: re where
  "re_w = Sym is_word"

definition re_dot :: re where
  "re_dot = Sym (\<lambda>c. c \<noteq> CHR 0x0A \<and> c \<noteq> CHR 0x0D)"


text \<open>\<open>String.prototype.replace\<close> with a \<open>g\<close> regular expression and a callback on the
  matched text: matches are replaced from left to right; after an empty match the
  search moves on by one character.\<close>

function re_replace_all :: "re \<Rightarrow> (string \<Rightarrow> string) \<Rightarrow> char option \<Rightarrow> string \<Rightarrow> string" where
  "re_replace_all r f p s =
     (case rmatch r \<lparr>prev = p, rest = s, caps = []\<rparr> of
        [] \<Rightarrow> (case s of [] \<Rightarrow> [] | x # xs \<Rightarrow> x # re_replace_all r f (Some x) xs)
      | m # _ \<Rightarrow>
          (let n = length s - length (rest m) in
           if n = 0
           then f [] @ (case s of [] \<Rightarrow> [] | x # xs \<Rightarrow> x # re_replace_all r f (Some x) xs)
           else f (take n s) @ re_replace_all r f (prev m) (drop n s)))"
  by pat_completeness auto
termination
  by (relation "measure (\<lambda>(r, f, p, s). length s)") auto

text \<open>\<open>String.prototype.replace\<close> with a regular expression without the \<open>g\<close> flag and
  a constant replacement: only the first match is replaced.\<close>

fun re_replace_first :: "re \<Rightarrow> string \<Rightarrow> char option \<Rightarrow> string \<Rightarrow> string" where
  "re_replace_first r t p [] =
     (case rmatch r \<lparr>prev = p, rest = [], caps = []\<rparr> of [] \<Rightarrow> [] | m # _ \<Rightarrow> t)"
| "re_replace_first r t p (x # xs) =
     (case rmatch r \<lparr>prev = p, rest = x # xs, caps = []\<rparr> of
        [] \<Rightarrow> x # re_replace_first r t (Some x) xs
      | m # _ \<Rightarrow> t @ rest m)"

section \<open>Naming: export identifiers derived from a file name\<close>

text \<open>\<^verbatim>\<open>toPascalCase(str) = str.replace(/(^|-)([a-z])/g, (g) => g.slice(-1).toUpperCase())\<close>\<close>

definition re_pascal :: re where
  "re_pascal = Seq (Grp 1 (Alt Bol (Chr CHR ''-''))) (Grp 2 (Sym is_lower))"

definition toPascalCase :: "string \<Rightarrow> string" where
  "toPascalCase str =
     re_replace_all re_pascal (\<lambda>g. toUpperCase (drop (length g - 1) g)) None str"

text \<open>\<^verbatim>\<open>extractMainComponentName(fileName) =
  fileName.split('-').map((part) => part.charAt(0).toUpperCase() + part.slice(1)).join('')\<close>\<close>

definition extractMainComponentName :: "string \<Rightarrow> string" where
  "extractMainComponentName fileName =
     join [] (map (\<lambda>part. toUpperCase (take 1 part) @ drop 1 part) (split_on CHR ''-'' fileName))"

text \<open>The reference derivation in the words of the specification: split the name on
  hyphens, upper-case the first character of each segment, concatenate the segments.\<close>

fun upper_first :: "string \<Rightarrow> string" where
  "upper_first [] = []"
| "upper_first (c # cs) = toUpperCase_char c # cs"

definition pascal_reference :: "string \<Rightarrow> string" where
  "pascal_reference baseName = concat (map upper_first (split_on CHR ''-'' baseName))"


section \<open>Balanced-block scanner\<close>

text \<open>\<open>Array.prototype.slice(start, end)\<close> for a start that is not negative.\<close>

definition slice :: "'a list \<Rightarrow> nat \<Rightarrow> int \<Rightarrow> 'a list" where
  "slice xs start end' =
     (let e = (if end' < 0 then max 0 (int (length xs) + end') else min end' (int (length xs)))
      in take (nat e - start) (drop start xs))"

text \<open>The inner \<open>for (const char of line)\<close> loops: the running depth and the flag that an
  opening delimiter has been seen.\<close>

definition count_delims :: "(char \<Rightarrow> bool) \<Rightarrow> (char \<Rightarrow> bool) \<Rightarrow> int \<times> bool \<Rightarrow> string \<Rightarrow> int \<times> bool" where
  "count_delims opening closing st line =
     foldl (\<lambda>(braceCount, found) ch.
              if opening ch then (braceCount + 1, True)
              else if closing ch then (braceCount - 1, found)
              else (braceCount, found)) st line"

definition brace_delta :: "string \<Rightarrow> int" where
  "brace_delta line = int (count_char CHR ''{'' line) - int (count_char CHR ''}'' line)"

function findEndOfImport_loop :: "string list \<Rightarrow> nat \<Rightarrow> int \<Rightarrow> int" where
  "findEndOfImport_loop lines i braceCount =
     (if i < length lines then
        (let line = lines ! i;
             braceCount' = braceCount + brace_delta line
         in if str_includes line '';'' \<and> braceCount' \<le> 0 then int i
            else findEndOfImport_loop lines (i + 1) braceCount')
      else int i - 1)"
  by pat_completeness auto
termination
  by (relation "measure (\<lambda>(lines, i, braceCount). length lines - i)") auto

declare findEndOfImport_loop.simps [simp del]

definition findEndOfImport :: "string list \<Rightarrow> nat \<Rightarrow> int" where
  "findEndOfImport lines startIndex = findEndOfImport_loop lines startIndex 0"

function findEndOfTypeDefinition_loop :: "string list \<Rightarrow> nat \<Rightarrow> int \<Rightarrow> bool \<Rightarrow> int" where
  "findEndOfTypeDefinition_loop lines i braceCount foundOpenBrace =
     (if i < length lines then
        (let line = lines ! i;
             st = count_delims (\<lambda>c. c = CHR ''{'') (\<lambda>c. c = CHR ''}'')
                    (braceCount, foundOpenBrace) line
         in if \<not> snd st \<and> str_includes line '';'' then int i
            else if snd st \<and> fst st = 0 then int i
            else findEndOfTypeDefinition_loop lines (i + 1) (fst st) (snd st))
      else int i - 1)"
  by pat_completeness auto
termination
  by (relation "measure (\<lambda>(lines, i, braceCount, found). length lines - i)") auto

declare findEndOfTypeDefinition_loop.simps [simp del]

definition findEndOfTypeDefinition :: "string list \<Rightarrow> nat \<Rightarrow> int" where
  "findEndOfTypeDefinition lines startIndex =
     findEndOfTypeDefinition_loop lines startIndex 0 False"

function findEndOfFunction_loop :: "string list \<Rightarrow> nat \<Rightarrow> int \<Rightarrow> bool \<Rightarrow> int" where
  "findEndOfFunction_loop lines i braceCount foundFunctionStart =
     (if i < length lines then
        (let line = lines ! i;
             st = count_delims (\<lambda>c. c = CHR ''{'') (\<lambda>c. c = CHR ''}'')
                    (braceCount, foundFunctionStart) line
         in if str_includes line ''=>'' \<and> \<not> str_includes line ''{'' \<and> \<not> snd st
               \<and> (str_includes line '';'' \<or> int i = int (length lines) - 1)
            then int i
            else if snd st \<and> fst st = 0 then int i
            else findEndOfFunction_loop lines (i + 1) (fst st) (snd st))
      else int i - 1)"
  by pat_completeness auto
termination
  by (relation "measure (\<lambda>(lines, i, braceCount, found). length lines - i)") auto

declare findEndOfFunction_loop.simps [simp del]

definition findEndOfFunction :: "string list \<Rightarrow> nat \<Rightarrow> int" where
  "findEndOfFunction lines startIndex = findEndOfFunction_loop lines startIndex 0 False"

function findEndOfConstant_loop :: "string list \<Rightarrow> nat \<Rightarrow> int \<Rightarrow> bool \<Rightarrow> int" where
  "findEndOfConstant_loop lines i braceCount foundStart =
     (if i < length lines then
        (let line = lines ! i;
             st = count_delims (\<lambda>c. c = CHR ''{'' \<or> c = CHR ''['')
                    (\<lambda>c. c = CHR ''}'' \<or> c = CHR '']'') (braceCount, foundStart) line
         in if \<not> snd st \<and> str_includes line '';'' then int i
            else if snd st \<and> fst st = 0 \<and> str_includes line '';'' then int i
            else findEndOfConstant_loop lines (i + 1) (fst st) (snd st))
      else int i - 1)"
  by pat_completeness auto
termination
  by (relation "measure (\<lambda>(lines, i, braceCount, found). length lines - i)") auto

declare findEndOfConstant_loop.simps [simp del]

definition findEndOfConstant :: "string list \<Rightarrow> nat \<Rightarrow> int" where
  "findEndOfConstant lines start = findEndOfConstant_loop lines start 0 False"

record block =
  content :: string
  endIndex :: int

definition extractBlock :: "string list \<Rightarrow> nat \<Rightarrow> string \<Rightarrow> block" where
  "extractBlock lines startIndex blockType =
     (let e = (if blockType = ''import'' then findEndOfImport lines startIndex
               else if blockType = ''type'' then findEndOfTypeDefinition lines startIndex
               else if blockType = ''constant'' then findEndOfConstant lines startIndex
               else if blockType = ''function'' then findEndOfFunction lines startIndex
               else int startIndex)
      in \<lparr>content = join [CHR 0x0A] (slice lines startIndex (e + 1)), endIndex = e\<rparr>)"


section \<open>Block classifier\<close>

definition isFunction :: "string \<Rightarrow> bool" where
  "isFunction line =
     ((str_includes line ''function '' \<or>
       (str_includes line ''const '' \<and> str_includes line '' = '' \<and>
        (str_includes line ''=>'' \<or> str_includes line ''function''))) \<and>
      \<not> str_includes line ''React.FC'' \<and>
      \<not> str_includes line '': FC'')"

text \<open>\<^verbatim>\<open>/(?:function|const)\s+([A-Z][a-zA-Z0-9]*)/\<close>\<close>

definition re_capitalized_decl :: re where
  "re_capitalized_decl =
     Seqs [Alts [Str ''function'', Str ''const''], Plus re_s,
           Grp 1 (Seq (Sym is_upper) (Star (Sym (\<lambda>c. is_lower c \<or> is_upper c \<or> is_digit c))))]"

text \<open>\<^verbatim>\<open>/<[A-Z][^>]*>/\<close>\<close>

definition re_generic_params :: re where
  "re_generic_params =
     Seqs [Chr CHR ''<'', Sym is_upper, Star (Sym (\<lambda>c. c \<noteq> CHR ''>'')), Chr CHR ''>'']"

definition isComponent :: "string \<Rightarrow> bool" where
  "isComponent line =
     ((str_includes line ''function '' \<or>
       (str_includes line ''const '' \<and> str_includes line '' = '')) \<and>
      (str_includes line ''React.FC'' \<or>
       str_includes line '': FC'' \<or>
       str_includes line '': React.'' \<or>
       str_includes line ''JSX.Element'' \<or>
       str_includes line ''ReactElement'' \<or>
       str_includes line ''export function'' \<or>
       re_test re_capitalized_decl line \<or>
       re_test re_generic_params line))"

text \<open>\<^verbatim>\<open>/(?:function|const)\s+(\w+)/\<close>\<close>

definition re_declared_name :: re where
  "re_declared_name =
     Seqs [Alts [Str ''function'', Str ''const''], Plus re_s, Grp 1 (Plus re_w)]"

text \<open>\<^verbatim>\<open>/^[A-Z].*(?:Table|Component|Page|View|Layout|App)$/\<close>\<close>

definition re_role_suffix :: re where
  "re_role_suffix =
     Seqs [Bol, Sym is_upper, Star re_dot,
           Alts [Str ''Table'', Str ''Component'', Str ''Page'', Str ''View'', Str ''Layout'',
                 Str ''App''],
           Eol]"

text \<open>
  \<open>isMainComponent(lines, index)\<close>.  The source reads \<open>lines[index]\<close> without a range
  check; its only caller is inside the loop guard \<open>i < lines.length\<close>.  Outside that
  range the source raises a \<open>TypeError\<close>, which is the value \<open>None\<close> here.
\<close>

definition isMainComponent :: "string list \<Rightarrow> nat \<Rightarrow> bool option" where
  "isMainComponent lines index =
     (if index < length lines then
        (let line = lines ! index in
         case re_group re_declared_name line 1 of
           None \<Rightarrow> Some False
         | Some componentName \<Rightarrow>
             if list_ex (\<lambda>l. str_includes l (''export default '' @ componentName))
                        (drop index lines)
             then Some True
             else if str_includes line ''export function'' then Some True
             else if re_test re_role_suffix componentName then Some True
             else Some False)
      else None)"

record parsed =
  imports' :: "string list"
  types :: "string list"
  constants :: "string list"
  utilities :: "string list"
  subComponents :: "string list"
  mainComponent :: string


text \<open>
  \<open>parseReactFile(content)\<close>: the body of the \<open>while (i < lines.length)\<close> loop is
  \<open>parseReactFile_step\<close>, which returns the next value of \<open>i\<close> and the updated
  \<open>result\<close>; the four branches end in \<open>continue\<close>, the fall-through is \<open>i++\<close>.
\<close>

definition parseReactFile_step :: "string list \<Rightarrow> nat \<Rightarrow> parsed \<Rightarrow> nat \<times> parsed" where
  "parseReactFile_step lines i result =
     (let line = trim (lines ! i) in
      if startsWith line ''import'' then
        (let importBlock = extractBlock lines i ''import'' in
         (nat (endIndex importBlock + 1),
          result\<lparr>imports' := imports' result @ [content importBlock]\<rparr>))
      else if str_includes line ''interface '' \<or> str_includes line ''type '' then
        (let typeBlock = extractBlock lines i ''type'' in
         (nat (endIndex typeBlock + 1),
          result\<lparr>types := types result @ [content typeBlock]\<rparr>))
      else if startsWith line ''const '' \<and> \<not> isFunction line \<and> \<not> isComponent line then
        (let constantBlock = extractBlock lines i ''constant'' in
         (nat (endIndex constantBlock + 1),
          result\<lparr>constants := constants result @ [content constantBlock]\<rparr>))
      else if isFunction line \<or> isComponent line then
        (let functionBlock = extractBlock lines i ''function'' in
         (nat (endIndex functionBlock + 1),
          if isComponent line then
            (if isMainComponent lines i = Some True
             then result\<lparr>mainComponent := content functionBlock\<rparr>
             else result\<lparr>subComponents := subComponents result @ [content functionBlock]\<rparr>)
          else result\<lparr>utilities := utilities result @ [content functionBlock]\<rparr>))
      else (i + 1, result))"

lemma findEndOfImport_loop_ge:
  "(if i < length lines then int i else int i - 1) \<le> findEndOfImport_loop lines i bc"
proof (induction lines i bc rule: findEndOfImport_loop.induct)
  case (1 lines i braceCount)
  show ?case
    by (subst findEndOfImport_loop.simps) (use 1 [OF _ refl refl] in \<open>auto simp: Let_def split: if_splits\<close>)
qed

lemma findEndOfTypeDefinition_loop_ge:
  "(if i < length lines then int i else int i - 1) \<le> findEndOfTypeDefinition_loop lines i bc f"
proof (induction lines i bc f rule: findEndOfTypeDefinition_loop.induct)
  case (1 lines i braceCount found)
  show ?case
    by (subst findEndOfTypeDefinition_loop.simps) (use 1 [OF _ refl refl] in \<open>auto simp: Let_def split: if_splits\<close>)
qed

lemma findEndOfFunction_loop_ge:
  "(if i < length lines then int i else int i - 1) \<le> findEndOfFunction_loop lines i bc f"
proof (induction lines i bc f rule: findEndOfFunction_loop.induct)
  case (1 lines i braceCount found)
  show ?case
    by (subst findEndOfFunction_loop.simps) (use 1 [OF _ refl refl] in \<open>auto simp: Let_def split: if_splits\<close>)
qed

lemma findEndOfConstant_loop_ge:
  "(if i < length lines then int i else int i - 1) \<le> findEndOfConstant_loop lines i bc f"
proof (induction lines i bc f rule: findEndOfConstant_loop.induct)
  case (1 lines i braceCount found)
  show ?case
    by (subst findEndOfConstant_loop.simps) (use 1 [OF _ refl refl] in \<open>auto simp: Let_def split: if_splits\<close>)
qed

lemma extractBlock_endIndex_ge:
  "i < length lines \<Longrightarrow> int i \<le> endIndex (extractBlock lines i blockType)"
  using findEndOfImport_loop_ge [of i lines 0] findEndOfTypeDefinition_loop_ge [of i lines 0 False]
    findEndOfFunction_loop_ge [of i lines 0 False] findEndOfConstant_loop_ge [of i lines 0 False]
  by (simp add: extractBlock_def Let_def findEndOfImport_def findEndOfTypeDefinition_def
        findEndOfConstant_def findEndOfFunction_def)


lemma extractBlock_next_index:
  "i < length lines \<Longrightarrow> i < nat (endIndex (extractBlock lines i blockType) + 1)"
  using extractBlock_endIndex_ge [of i lines blockType] by linarith

lemma parseReactFile_step_advances:
  "i < length lines \<Longrightarrow> i < fst (parseReactFile_step lines i result)"
  by (simp add: parseReactFile_step_def Let_def extractBlock_next_index)

lemma parseReactFile_step_measure:
  assumes "i < length lines" and "parseReactFile_step lines i result = (i', result')"
  shows "length lines - i' < length lines - i"
  using parseReactFile_step_advances [OF assms(1), of result] assms by simp

function parseReactFile_loop :: "string list \<Rightarrow> nat \<Rightarrow> parsed \<Rightarrow> parsed" where
  "parseReactFile_loop lines i result =
     (if i < length lines then
        (case parseReactFile_step lines i result of
           (i', result') \<Rightarrow> parseReactFile_loop lines i' result')
      else result)"
  by pat_completeness auto
termination
  by (relation "measure (\<lambda>(lines, i, result). length lines - i)")
     (auto simp: case_prod_beta intro: parseReactFile_step_measure [OF _ prod.collapse [symmetric]])

declare parseReactFile_loop.simps [simp del]

definition parseReactFile :: "string \<Rightarrow> parsed" where
  "parseReactFile text =
     parseReactFile_loop (split_on CHR 0x0A text) 0
       \<lparr>imports' = [], types = [], constants = [], utilities = [], subComponents = [],
        mainComponent = []\<rparr>"

text \<open>
  The category that one iteration of the loop of \<open>parseReactFile\<close> assigns to the block
  starting at line \<open>i\<close> (\<open>None\<close>: no rule matches and the line is skipped), read off the
  conditions of the loop body in their order.
\<close>

datatype category = Import | TypeDef | Constant | Utility | SubComponent | Main

definition block_category :: "string list \<Rightarrow> nat \<Rightarrow> category option" where
  "block_category lines i =
     (let line = trim (lines ! i) in
      if startsWith line ''import'' then Some Import
      else if str_includes line ''interface '' \<or> str_includes line ''type '' then Some TypeDef
      else if startsWith line ''const '' \<and> \<not> isFunction line \<and> \<not> isComponent line
        then Some Constant
      else if isFunction line \<or> isComponent line then
        (if isComponent line then
           (if isMainComponent lines i = Some True then Some Main else Some SubComponent)
         else Some Utility)
      else None)"

fun blockType_of :: "category \<Rightarrow> string" where
  "blockType_of Import = ''import''"
| "blockType_of TypeDef = ''type''"
| "blockType_of Constant = ''constant''"
| "blockType_of Utility = ''function''"
| "blockType_of SubComponent = ''function''"
| "blockType_of Main = ''function''"

fun add_block :: "category \<Rightarrow> string \<Rightarrow> parsed \<Rightarrow> parsed" where
  "add_block Import t result = result\<lparr>imports' := imports' result @ [t]\<rparr>"
| "add_block TypeDef t result = result\<lparr>types := types result @ [t]\<rparr>"
| "add_block Constant t result = result\<lparr>constants := constants result @ [t]\<rparr>"
| "add_block Utility t result = result\<lparr>utilities := utilities result @ [t]\<rparr>"
| "add_block SubComponent t result = result\<lparr>subComponents := subComponents result @ [t]\<rparr>"
| "add_block Main t result = result\<lparr>mainComponent := t\<rparr>"

lemma parseReactFile_step_category:
  "parseReactFile_step lines i result =
     (case block_category lines i of
        None \<Rightarrow> (i + 1, result)
      | Some c \<Rightarrow>
          (nat (endIndex (extractBlock lines i (blockType_of c)) + 1),
           add_block c (content (extractBlock lines i (blockType_of c))) result))"
  by (simp add: parseReactFile_step_def block_category_def Let_def)

text \<open>The line ranges of the blocks that the loop extracts from line \<open>i\<close> on: category,
  first line and last line (\<open>endIndex\<close>) of each block, in the order of extraction.\<close>

function scan_blocks :: "string list \<Rightarrow> nat \<Rightarrow> (category \<times> nat \<times> int) list" where
  "scan_blocks lines i =
     (if i < length lines then
        (case block_category lines i of
           None \<Rightarrow> scan_blocks lines (i + 1)
         | Some c \<Rightarrow>
             (c, i, endIndex (extractBlock lines i (blockType_of c)))
               # scan_blocks lines (nat (endIndex (extractBlock lines i (blockType_of c)) + 1)))
      else [])"
  by pat_completeness auto
termination
  by (relation "measure (\<lambda>(lines, i). length lines - i)")
     (auto simp: extractBlock_next_index intro!: diff_less_mono2)

declare scan_blocks.simps [simp del]

text \<open>The file-level default-export declarations: the lines that contain
  \<open>export default\<close> followed by a space.\<close>

definition default_export_decls :: "string list \<Rightarrow> string list" where
  "default_export_decls lines = filter (\<lambda>l. str_includes l ''export default '') lines"

definition block_text :: "string list \<Rightarrow> nat \<Rightarrow> int \<Rightarrow> string" where
  "block_text lines s e = join [CHR 0x0A] (slice lines s (e + 1))"

definition texts_of :: "category \<Rightarrow> string list \<Rightarrow> (category \<times> nat \<times> int) list \<Rightarrow> string list" where
  "texts_of c lines bs =
     map (\<lambda>(c', s, e). block_text lines s e) (filter (\<lambda>(c', s, e). c' = c) bs)"

text \<open>The blocks whose line range contains line \<open>j\<close>.\<close>

definition covering :: "(category \<times> nat \<times> int) list \<Rightarrow> nat \<Rightarrow> (category \<times> nat \<times> int) list" where
  "covering bs j = filter (\<lambda>(c, s, e). s \<le> j \<and> int j \<le> e) bs"

text \<open>Blank and comment-only lines, as \<open>analyzeFileStructure\<close> tells them apart; and
  delimiters that are balanced, checked with a stack.\<close>

definition is_blank_line :: "string \<Rightarrow> bool" where
  "is_blank_line l = (trim l = [])"

definition is_comment_line :: "string \<Rightarrow> bool" where
  "is_comment_line l =
     (startsWith (trim l) ''//'' \<or> startsWith (trim l) ''/*'' \<or> startsWith (trim l) ''*'')"

fun delims_balanced :: "string \<Rightarrow> string \<Rightarrow> bool" where
  "delims_balanced stack [] = (stack = [])"
| "delims_balanced stack (c # cs) =
     (if c = CHR ''('' \<or> c = CHR ''['' \<or> c = CHR ''{'' then delims_balanced (c # stack) cs
      else if c = CHR '')'' then
        (case stack of t # ts \<Rightarrow> t = CHR ''('' \<and> delims_balanced ts cs | [] \<Rightarrow> False)
      else if c = CHR '']'' then
        (case stack of t # ts \<Rightarrow> t = CHR ''['' \<and> delims_balanced ts cs | [] \<Rightarrow> False)
      else if c = CHR ''}'' then
        (case stack of t # ts \<Rightarrow> t = CHR ''{'' \<and> delims_balanced ts cs | [] \<Rightarrow> False)
      else delims_balanced stack cs)"

text \<open>The partition property in the words of the specification: every line that is
  neither blank nor comment-only lies in exactly one block.\<close>

definition covers_code_lines_once :: "string \<Rightarrow> bool" where
  "covers_code_lines_once text =
     (let lines = split_on CHR 0x0A text in
      list_all (\<lambda>j. is_blank_line (lines ! j) \<or> is_comment_line (lines ! j) \<or>
                     length (covering (scan_blocks lines 0) j) = 1)
               [0..<length lines])"

definition source_lines :: "string \<Rightarrow> string list" where
  "source_lines text = split_on CHR 0x0A text"

definition scanned_blocks :: "string \<Rightarrow> (category \<times> nat \<times> int) list" where
  "scanned_blocks text = scan_blocks (source_lines text) 0"

section \<open>Import dependency filter\<close>

text \<open>\<^verbatim>\<open>/import\s+(?:type\s+)?(?:\{([^}]+)\}|\*\s+as\s+(\w+)|(\w+))\s+from\s+['"]([^'"]+)['"]/\<close>\<close>

definition is_quote :: "char \<Rightarrow> bool" where
  "is_quote c = (c = CHR 0x27 \<or> c = CHR 0x22)"

definition re_import :: re where
  "re_import =
     Seqs [Str ''import'', Plus re_s, Opt (Seq (Str ''type'') (Plus re_s)),
           Alts [Seqs [Chr CHR ''{'', Grp 1 (Plus (Sym (\<lambda>c. c \<noteq> CHR ''}''))), Chr CHR ''}''],
                 Seqs [Chr CHR ''*'', Plus re_s, Str ''as'', Plus re_s, Grp 2 (Plus re_w)],
                 Grp 3 (Plus re_w)],
           Plus re_s, Str ''from'', Plus re_s,
           Sym is_quote, Grp 4 (Plus (Sym (\<lambda>c. \<not> is_quote c))), Sym is_quote]"

text \<open>\<^verbatim>\<open>/\s+as\s+\w+/\<close>\<close>

definition re_as_alias :: re where
  "re_as_alias = Seqs [Plus re_s, Str ''as'', Plus re_s, Plus re_w]"

text \<open>
  \<open>getRequiredImports(content, allImports)\<close>.  A capture group that did not take part in
  the match is \<open>undefined\<close> in the source and \<open>None\<close> here; a group that matched is never
  the empty string, so the truthiness tests of the source are tests for \<open>Some\<close>.
\<close>

definition import_isUsed :: "string \<Rightarrow> string \<Rightarrow> bool option" where
  "import_isUsed text importStatement =
     (case rsearch_from re_import None importStatement of
        None \<Rightarrow> None
      | Some m \<Rightarrow>
          (case map_of (caps m) 1 of
             Some namedImports \<Rightarrow>
               Some (list_ex
                 (\<lambda>imp. str_includes text (trim (re_replace_first re_as_alias [] None imp)))
                 (map trim (split_on CHR '','' namedImports)))
           | None \<Rightarrow>
               (case map_of (caps m) 2 of
                  Some namespaceImport \<Rightarrow> Some (str_includes text namespaceImport)
                | None \<Rightarrow>
                    (case map_of (caps m) 3 of
                       Some defaultImport \<Rightarrow> Some (str_includes text defaultImport)
                     | None \<Rightarrow> Some False))))"

definition getRequiredImports :: "string \<Rightarrow> string list \<Rightarrow> string list" where
  "getRequiredImports text allImports =
     filter (\<lambda>importStatement. import_isUsed text importStatement = Some True) allImports"

text \<open>
  \<open>filterUsedTypes(allTypes, contentToAnalyze)\<close> tests
  \<^verbatim>\<open>new RegExp(`\\b${type}\\b`, 'g')\<close>.  The type name is read as literal text: the
  definition models the source for names without regular-expression metacharacters,
  which is what identifiers made of \<open>\w\<close> characters are.
\<close>

definition re_whole_word :: "string \<Rightarrow> re" where
  "re_whole_word name = Seqs [Wb, Str name, Wb]"

definition filterUsedTypes :: "string list \<Rightarrow> string \<Rightarrow> string list" where
  "filterUsedTypes allTypes contentToAnalyze =
     filter (\<lambda>type. re_test (re_whole_word type) contentToAnalyze) allTypes"

section \<open>Paths, numbers and timestamps\<close>

text \<open>
  The functions of the Node \<open>path\<close> module, for POSIX paths as the engine builds them:
  absolute, normalised directories joined with plain file names.
\<close>

definition path_join :: "string \<Rightarrow> string \<Rightarrow> string" where
  "path_join dir name = (if dir = ''/'' then ''/'' @ name else dir @ ''/'' @ name)"

definition basename :: "string \<Rightarrow> string" where
  "basename p = rev (takeWhile (\<lambda>c. c \<noteq> CHR ''/'') (rev p))"

definition dirname :: "string \<Rightarrow> string" where
  "dirname p =
     (if CHR ''/'' \<notin> set p then ''.''
      else (let d = rev (drop 1 (dropWhile (\<lambda>c. c \<noteq> CHR ''/'') (rev p)))
            in if d = [] then ''/'' else d))"

text \<open>\<open>path.extname\<close>: from the last dot of the base name to its end; empty when there
  is no dot, when the only dot starts the name, and for \<open>..\<close>.\<close>

definition extname :: "string \<Rightarrow> string" where
  "extname p =
     (let b = basename p;
          e = rev (takeWhile (\<lambda>c. c \<noteq> CHR ''.'') (rev b))
      in if CHR ''.'' \<notin> set b \<or> length e + 1 = length b \<or> b = ''..'' then []
         else CHR ''.'' # e)"

text \<open>\<open>path.basename(p, ext)\<close>: the base name without the suffix \<open>ext\<close>, unless the
  base name is the suffix itself.\<close>

definition endsWith :: "string \<Rightarrow> string \<Rightarrow> bool" where
  "endsWith s t = startsWith (rev s) (rev t)"

definition basename_ext :: "string \<Rightarrow> string \<Rightarrow> string" where
  "basename_ext p ext =
     (let b = basename p
      in if ext \<noteq> [] \<and> b \<noteq> ext \<and> endsWith b ext then take (length b - length ext) b
         else b)"

definition digit_char :: "nat \<Rightarrow> char" where
  "digit_char d = ''0123456789'' ! (d mod 10)"

text \<open>The decimal numeral of a number, as a template literal prints it.\<close>

function show_nat :: "nat \<Rightarrow> string" where
  "show_nat n = (if n < 10 then [digit_char n] else show_nat (n div 10) @ [digit_char n])"
  by pat_completeness auto
termination
  by (relation "measure id") auto

declare show_nat.simps [simp del]

definition pad_nat :: "nat \<Rightarrow> nat \<Rightarrow> string" where
  "pad_nat width n = replicate (width - length (show_nat n)) CHR ''0'' @ show_nat n"

text \<open>A reading of the clock, and \<open>Date.prototype.toISOString\<close> for years 0 to 9999:
  \<open>YYYY-MM-DDTHH:mm:ss.sssZ\<close>.\<close>

record date =
  year :: nat
  month :: nat
  day :: nat
  hours :: nat
  minutes :: nat
  seconds :: nat
  milliseconds :: nat

definition toISOString :: "date \<Rightarrow> string" where
  "toISOString d =
     pad_nat 4 (year d) @ ''-'' @ pad_nat 2 (month d) @ ''-'' @ pad_nat 2 (day d) @ ''T'' @
     pad_nat 2 (hours d) @ '':'' @ pad_nat 2 (minutes d) @ '':'' @ pad_nat 2 (seconds d) @ ''.'' @
     pad_nat 3 (milliseconds d) @ ''Z''"

section \<open>File system and errors\<close>

text \<open>
  A thrown JavaScript error is a value \<open>Err message\<close>; a function that may throw returns
  \<open>Inl\<close> of the error or \<open>Inr\<close> of its result, together with the state it leaves.
  \<open>String(error)\<close> of an \<open>Error\<close> object is its message after \<open>Error: \<close>.
\<close>

datatype err = Err string

fun String_of :: "err \<Rightarrow> string" where
  "String_of (Err m) = ''Error: '' @ m"

text \<open>
  The world the engine runs in: the regular files of the file system with their
  contents, the directories that \<open>fs.existsSync\<close> reports for a target directory, the
  paths on which the storage rejects a read, a write or a removal, and the clock (its
  readings, and how many have been taken).  A file can exist and still not be readable:
  \<open>fs.pathExists\<close> is true for it and \<open>fs.readFile\<close> throws.  Directories are otherwise
  not represented: \<open>fs.ensureDir\<close> leaves the files unchanged, and \<open>fs.pathExists\<close> is
  only applied to paths of regular files (the files that the engine has written, and the
  backup it has copied).  The console output of the logger is not part of the state.
\<close>

record world =
  files :: "string \<Rightarrow> string option"
  dir_exists :: "string \<Rightarrow> bool"
  read_denied :: "string \<Rightarrow> bool"
  write_denied :: "string \<Rightarrow> bool"
  remove_denied :: "string \<Rightarrow> bool"
  clock :: "nat \<Rightarrow> date"
  ticks :: nat

type_synonym 'a io = "world \<Rightarrow> (err + 'a) \<times> world"

definition pathExists :: "string \<Rightarrow> world \<Rightarrow> bool" where
  "pathExists p w = (files w p \<noteq> None)"

definition existsSync :: "string \<Rightarrow> world \<Rightarrow> bool" where
  "existsSync p w = (files w p \<noteq> None \<or> dir_exists w p)"

text \<open>A path between single quotes, as the messages of the Node file-system errors
  print it.\<close>

definition quoted :: "string \<Rightarrow> string" where
  "quoted p = [CHR 0x27] @ p @ [CHR 0x27]"

text \<open>\<^verbatim>\<open>fs.readFile(p, 'utf8')\<close> throws when there is no file at \<open>p\<close> and when the file
  may not be read.\<close>

definition readFile :: "string \<Rightarrow> string io" where
  "readFile p w =
     (case files w p of
        None \<Rightarrow> (Inl (Err (''ENOENT: no such file or directory, open '' @ quoted p)), w)
      | Some data \<Rightarrow>
          if read_denied w p
          then (Inl (Err (''EACCES: permission denied, open '' @ quoted p)), w)
          else (Inr data, w))"

definition writeFile :: "string \<Rightarrow> string \<Rightarrow> unit io" where
  "writeFile p data w =
     (if write_denied w p
      then (Inl (Err (''EACCES: permission denied, open '' @ quoted p)), w)
      else (Inr (), w\<lparr>files := (files w)(p \<mapsto> data)\<rparr>))"

text \<open>\<open>fs.remove\<close> succeeds on a path that does not exist.\<close>

definition remove :: "string \<Rightarrow> unit io" where
  "remove p w =
     (if remove_denied w p
      then (Inl (Err (''EACCES: permission denied, unlink '' @ quoted p)), w)
      else (Inr (), w\<lparr>files := (files w)(p := None)\<rparr>))"

text \<open>\<open>fs.copy(src, dest)\<close> of a regular file: the bytes of \<open>src\<close> become the content of
  \<open>dest\<close>, and \<open>dest\<close> receives the permissions of \<open>src\<close>, which was readable.  It fails
  when \<open>src\<close> does not exist, when \<open>src\<close> and \<open>dest\<close> are the same file, when \<open>src\<close> may
  not be read, and when \<open>dest\<close> cannot be written.\<close>

definition copy :: "string \<Rightarrow> string \<Rightarrow> unit io" where
  "copy src dest w =
     (case files w src of
        None \<Rightarrow> (Inl (Err (''ENOENT: no such file or directory, lstat '' @ quoted src)), w)
      | Some data \<Rightarrow>
          if src = dest then (Inl (Err ''Source and destination must not be the same.''), w)
          else if read_denied w src \<or> write_denied w dest
            then (Inl (Err (''EACCES: permission denied, copyfile '' @ quoted src @ '' -> ''
                              @ quoted dest)), w)
          else (Inr (), w\<lparr>files := (files w)(dest \<mapsto> data),
                           read_denied := (read_denied w)(dest := False)\<rparr>))"

definition getFileLineCount :: "string \<Rightarrow> nat io" where
  "getFileLineCount filePath w =
     (case readFile filePath w of
        (Inl e, w') \<Rightarrow> (Inl e, w')
      | (Inr data, w') \<Rightarrow> (Inr (length (split_on CHR 0x0A data)), w'))"

section \<open>Configuration, results and the text helpers\<close>

text \<open>The fields of \<open>RefactorConfig\<close> that the modelled methods read, and the two
  instance fields of \<open>AutoRefactor\<close>.  They are set by the constructor and not assigned
  afterwards by any modelled method.\<close>

record RefactorConfig =
  maxLines :: int
  targetDirectories :: "string list"
  fileExtensions :: "string list"
  excludePatterns :: "string list"

record engine =
  config :: RefactorConfig
  projectRoot :: string

record FileToRefactor =
  path :: string
  file_lines :: nat
  framework :: string

text \<open>In \<open>FileToRefactor\<close> the field \<open>lines\<close> of the source is \<open>file_lines\<close>.
  \<open>{ success: boolean; error?: string }\<close> is the result of \<open>verifyRefactoring\<close>;
  \<open>RefactorResult\<close> has these two fields and four more.  \<open>linesReduced\<close> is a JavaScript
  number; the engine only stores \<open>0\<close> in it or passes the estimate of \<open>analyzeFile\<close> on.\<close>

record verification =
  success :: bool
  error :: "string option"

record RefactorResult = verification +
  originalFile :: string
  newFiles :: "string list"
  linesReduced :: real
  analysis :: "string list option"

record suggestions =
  suggestedFiles :: "string list"
  estimatedReduction :: real
  analysis' :: "string list"

record RunOptions =
  dryRun :: "bool option"
  createBackups :: "bool option"
  verbose :: "bool option"
  specificFile :: "string option"

text \<open>
  The methods of the engine that compute text and perform no file-system write are
  parameters of the model, under the names they have in the source: the analysis of a
  file (\<open>analyzeFile\<close> and the methods it calls), the extraction of sections from the
  content, and the templates of the generated files.  \<open>glob\<close> and \<open>detectFramework\<close>
  read the file system and return what they find.  The result of
  \<open>extractReactComponentSections\<close> is a \<open>parsed\<close> record of which \<open>types\<close>, \<open>utilities\<close>,
  \<open>subComponents\<close> and \<open>mainComponent\<close> are used.  Every property below holds for all
  values of these parameters.
\<close>

record helpers =
  analyzeFile :: "string \<Rightarrow> string \<Rightarrow> suggestions"
  detectFramework :: "world \<Rightarrow> string"
  glob :: "world \<Rightarrow> string \<Rightarrow> string list \<Rightarrow> string list"
  path_relative :: "string \<Rightarrow> string \<Rightarrow> string"
  extractFragments :: "string \<Rightarrow> string list"
  fragmentsFileContent :: "string \<Rightarrow> string"
  extractQueriesByPattern :: "string \<Rightarrow> string \<Rightarrow> string list"
  extractRemainingQueries :: "string \<Rightarrow> string list"
  queriesFileContent :: "string \<Rightarrow> string \<Rightarrow> string \<Rightarrow> string list \<Rightarrow> string"
  createGraphQLIndexFile :: "string \<Rightarrow> string list \<Rightarrow> string"
  createGraphQLMainFile :: "string \<Rightarrow> string list \<Rightarrow> string"
  extractCommonTypes :: "string \<Rightarrow> string list"
  extractTypesByPattern :: "string \<Rightarrow> string \<Rightarrow> string list"
  extractCommonTypeNames :: "string list \<Rightarrow> string list"
  createTypesIndexFile :: "string list \<Rightarrow> string"
  extractReactComponentSections :: "string \<Rightarrow> parsed"
  extractImportsSection :: "string \<Rightarrow> string list"
  createTypesFile :: "string list \<Rightarrow> string list \<Rightarrow> string"
  createUtilsFile :: "string list \<Rightarrow> string list \<Rightarrow> string"
  createComponentsFile :: "string list \<Rightarrow> string list \<Rightarrow> string"
  createMainComponentFile :: "string list \<Rightarrow> string \<Rightarrow> string list \<Rightarrow> string"
  createReactIndexFile :: "string \<Rightarrow> string list \<Rightarrow> string"

section \<open>Transaction manager\<close>

subsection \<open>Backup, verification, rollback\<close>

definition ensureDir :: "string \<Rightarrow> unit io" where
  "ensureDir d w =
     (if write_denied w d
      then (Inl (Err (''EACCES: permission denied, mkdir '' @ quoted d)), w)
      else (Inr (), w))"

text \<open>\<open>new Date()\<close> takes the next reading of the clock.\<close>

definition new_Date :: "world \<Rightarrow> date \<times> world" where
  "new_Date w = (clock w (ticks w), w\<lparr>ticks := ticks w + 1\<rparr>)"

text \<open>\<^verbatim>\<open>new Date().toISOString().replace(/[:.]/g, '-')\<close>\<close>

definition timestamp_of :: "date \<Rightarrow> string" where
  "timestamp_of d = map (\<lambda>c. if c = CHR '':'' \<or> c = CHR ''.'' then CHR ''-'' else c) (toISOString d)"

definition backupPath_of :: "engine \<Rightarrow> string \<Rightarrow> date \<Rightarrow> string" where
  "backupPath_of this filePath d =
     path_join (path_join (projectRoot this) ''.refactor-backups'')
       (basename filePath @ ''-'' @ timestamp_of d @ ''.backup'')"

definition createBackup :: "engine \<Rightarrow> string \<Rightarrow> string io" where
  "createBackup this filePath w =
     (case ensureDir (path_join (projectRoot this) ''.refactor-backups'') w of
        (Inl e, w1) \<Rightarrow> (Inl e, w1)
      | (Inr _, w1) \<Rightarrow>
          (case new_Date w1 of
             (d, w2) \<Rightarrow>
               (case copy filePath (backupPath_of this filePath d) w2 of
                  (Inl e, w3) \<Rightarrow> (Inl e, w3)
                | (Inr _, w3) \<Rightarrow> (Inr (backupPath_of this filePath d), w3))))"

text \<open>The three loops of \<open>verifyRefactoring\<close>; each returns at the first file that fails
  its check, and the second and third throw when a file cannot be read.  The \<open>catch\<close>
  block turns what they throw into the result \<open>verification_caught\<close>.  Verification
  reads the file system and does not change it.\<close>

fun check_exists :: "string list \<Rightarrow> world \<Rightarrow> verification option" where
  "check_exists [] w = None"
| "check_exists (file # fs) w =
     (if \<not> pathExists file w
      then Some \<lparr>success = False, error = Some (''Created file does not exist: '' @ file)\<rparr>
      else check_exists fs w)"

fun check_content :: "string list \<Rightarrow> world \<Rightarrow> err + verification option" where
  "check_content [] w = Inr None"
| "check_content (file # fs) w =
     (case readFile file w of
        (Inl e, _) \<Rightarrow> Inl e
      | (Inr data, _) \<Rightarrow>
          if length (trim data) = 0
          then Inr (Some \<lparr>success = False, error = Some (''Created file is empty: '' @ file)\<rparr>)
          else check_content fs w)"

fun check_braces :: "string list \<Rightarrow> world \<Rightarrow> err + verification option" where
  "check_braces [] w = Inr None"
| "check_braces (file # fs) w =
     (case readFile file w of
        (Inl e, _) \<Rightarrow> Inl e
      | (Inr data, _) \<Rightarrow>
          if count_char CHR ''{'' data \<noteq> count_char CHR ''}'' data
          then Inr (Some \<lparr>success = False,
                           error = Some (''Syntax error in file: '' @ file @ '' - unbalanced braces'')\<rparr>)
          else check_braces fs w)"

definition verification_caught :: "err \<Rightarrow> verification" where
  "verification_caught e = \<lparr>success = False, error = Some (''Verification failed: '' @ String_of e)\<rparr>"

definition verifyRefactoring :: "string \<Rightarrow> string list \<Rightarrow> world \<Rightarrow> verification" where
  "verifyRefactoring originalFile'' created w =
     (case check_exists created w of
        Some v \<Rightarrow> v
      | None \<Rightarrow>
          (case check_content created w of
             Inl e \<Rightarrow> verification_caught e
           | Inr (Some v) \<Rightarrow> v
           | Inr None \<Rightarrow>
               (case check_braces created w of
                  Inl e \<Rightarrow> verification_caught e
                | Inr (Some v) \<Rightarrow> v
                | Inr None \<Rightarrow> \<lparr>success = True, error = None\<rparr>)))"

fun remove_created :: "string list \<Rightarrow> unit io" where
  "remove_created [] w = (Inr (), w)"
| "remove_created (file # fs) w =
     (if pathExists file w then
        (case remove file w of
           (Inl e, w') \<Rightarrow> (Inl e, w')
         | (Inr _, w') \<Rightarrow> remove_created fs w')
      else remove_created fs w)"

text \<open>\<open>rollbackRefactoring\<close> logs a failure and throws it again.\<close>

definition rollbackRefactoring :: "string \<Rightarrow> string list \<Rightarrow> string \<Rightarrow> unit io" where
  "rollbackRefactoring originalFile'' createdFiles backupPath w =
     (case remove_created createdFiles w of
        (Inl e, w') \<Rightarrow> (Inl e, w')
      | (Inr _, w') \<Rightarrow>
          if pathExists backupPath w' then copy backupPath originalFile'' w'
          else (Inr (), w'))"

text \<open>A world for the examples: no files, no storage faults, and a clock that advances by
  a millisecond at each reading.\<close>

definition empty_world :: world where
  "empty_world =
     \<lparr>files = (\<lambda>p. None), dir_exists = (\<lambda>p. False), read_denied = (\<lambda>p. False),
      write_denied = (\<lambda>p. False), remove_denied = (\<lambda>p. False),
      clock = (\<lambda>n. \<lparr>year = 2025, month = 7, day = 8, hours = 12, minutes = 30, seconds = 15,
                        milliseconds = 250 + n\<rparr>),
      ticks = 0\<rparr>"

subsection \<open>Writing the new files\<close>

text \<open>
  The methods that write the new files keep a local array \<open>newFiles\<close>; their state is
  the world together with that array.  \<open>push_write\<close> is
  \<^verbatim>\<open>await fs.writeFile(file, data); newFiles.push(file);\<close> and \<open>run_all\<close> runs statements
  in sequence up to the first one that throws.
\<close>

type_synonym writer = "world \<times> string list \<Rightarrow> (err + unit) \<times> (world \<times> string list)"

definition push_write :: "string \<Rightarrow> string \<Rightarrow> writer" where
  "push_write file data s =
     (case writeFile file data (fst s) of
        (Inl e, w') \<Rightarrow> (Inl e, (w', snd s))
      | (Inr _, w') \<Rightarrow> (Inr (), (w', snd s @ [file])))"

definition write_only :: "string \<Rightarrow> string \<Rightarrow> writer" where
  "write_only file data s =
     (case writeFile file data (fst s) of
        (Inl e, w') \<Rightarrow> (Inl e, (w', snd s))
      | (Inr _, w') \<Rightarrow> (Inr (), (w', snd s)))"

definition only_if :: "bool \<Rightarrow> writer \<Rightarrow> writer" where
  "only_if b m s = (if b then m s else (Inr (), s))"

fun run_all :: "writer list \<Rightarrow> writer" where
  "run_all [] s = (Inr (), s)"
| "run_all (m # ms) s =
     (case m s of
        (Inl e, s') \<Rightarrow> (Inl e, s')
      | (Inr _, s') \<Rightarrow> run_all ms s')"

text \<open>The value a method returns: \<open>{ newFiles }\<close>, or the error thrown.\<close>

definition returning_newFiles :: "(err + unit) \<times> (world \<times> string list) \<Rightarrow> (err + string list) \<times> world" where
  "returning_newFiles r =
     (case r of
        (Inl e, s) \<Rightarrow> (Inl e, fst s)
      | (Inr _, s) \<Rightarrow> (Inr (snd s), fst s))"

definition queries_step :: "helpers \<Rightarrow> string \<Rightarrow> string \<Rightarrow> string \<Rightarrow> string list \<Rightarrow> string \<Rightarrow> string \<Rightarrow> writer" where
  "queries_step h text dir baseName queries suffix exportName =
     only_if (queries \<noteq> [])
       (push_write (path_join dir (baseName @ suffix))
          (queriesFileContent h text baseName exportName queries))"

definition refactorGraphQLFile :: "helpers \<Rightarrow> string \<Rightarrow> string \<Rightarrow> string list io" where
  "refactorGraphQLFile h filePath text w =
     (let dir = dirname filePath;
          baseName = basename_ext filePath ''.ts''
      in returning_newFiles (run_all
          [only_if (extractFragments h text \<noteq> [])
             (push_write (path_join dir (baseName @ ''-fragments.ts''))
                (fragmentsFileContent h text)),
           queries_step h text dir baseName
             (extractQueriesByPattern h text ''bot|dca|grid|combo|hedge'')
             ''-bot-queries.ts'' ''botQueries'',
           queries_step h text dir baseName
             (extractQueriesByPattern h text ''deal'') ''-deal-queries.ts'' ''dealQueries'',
           queries_step h text dir baseName
             (extractQueriesByPattern h text ''user|notification|subscription'')
             ''-user-queries.ts'' ''userQueries'',
           queries_step h text dir baseName
             (extractQueriesByPattern h text ''exchange'')
             ''-exchange-queries.ts'' ''exchangeQueries'',
           queries_step h text dir baseName
             (extractRemainingQueries h text) ''-other-queries.ts'' ''otherQueries'',
           (\<lambda>s. push_write (path_join dir (baseName @ ''-index.ts''))
                  (createGraphQLIndexFile h baseName (snd s)) s),
           (\<lambda>s. write_only filePath (createGraphQLMainFile h baseName (snd s)) s)]
          (w, [])))"

definition types_step :: "helpers \<Rightarrow> string \<Rightarrow> string list \<Rightarrow> string list \<Rightarrow> string \<Rightarrow> writer" where
  "types_step h dir commonTypes typeDefs name =
     only_if (typeDefs \<noteq> [])
       (push_write (path_join dir name)
          (''import { '' @ join '', '' (extractCommonTypeNames h commonTypes)
             @ '' } from './common';'' @ [CHR 0x0A, CHR 0x0A]
             @ join [CHR 0x0A, CHR 0x0A] typeDefs))"

definition refactorTypesFile :: "helpers \<Rightarrow> string \<Rightarrow> string \<Rightarrow> string list io" where
  "refactorTypesFile h filePath text w =
     (let dir = dirname filePath;
          commonTypes = extractCommonTypes h text
      in returning_newFiles (run_all
          [only_if (commonTypes \<noteq> [])
             (push_write (path_join dir ''common.ts'') (join [CHR 0x0A, CHR 0x0A] commonTypes)),
           types_step h dir commonTypes
             (extractTypesByPattern h text ''bot|dca|grid|combo|hedge'') ''bot.ts'',
           types_step h dir commonTypes (extractTypesByPattern h text ''deal'') ''deal.ts'',
           types_step h dir commonTypes
             (extractTypesByPattern h text ''exchange'') ''exchange.ts'',
           types_step h dir commonTypes (extractTypesByPattern h text ''user'') ''user.ts'',
           types_step h dir commonTypes
             (extractTypesByPattern h text ''api|input|payload|response'') ''api.ts'',
           (\<lambda>s. push_write (path_join dir ''index.ts'') (createTypesIndexFile h (snd s)) s)]
          (w, [])))"

text \<open>\<open>splitContentIntoChunks(content, maxLines)\<close>: the loop over the lines, and the last
  chunk.\<close>

fun splitContentIntoChunks_loop :: "int \<Rightarrow> string list \<Rightarrow> string list \<Rightarrow> string \<Rightarrow> nat \<Rightarrow> string list" where
  "splitContentIntoChunks_loop m [] chunks currentChunk currentLines =
     (if trim currentChunk \<noteq> [] then chunks @ [trim currentChunk] else chunks)"
| "splitContentIntoChunks_loop m (line # rest') chunks currentChunk currentLines =
     (if int currentLines \<ge> m \<and> trim line = []
      then splitContentIntoChunks_loop m rest' (chunks @ [trim currentChunk]) [] 0
      else splitContentIntoChunks_loop m rest' chunks (currentChunk @ line @ [CHR 0x0A])
             (currentLines + 1))"

definition splitContentIntoChunks :: "string \<Rightarrow> int \<Rightarrow> string list" where
  "splitContentIntoChunks text m = splitContentIntoChunks_loop m (split_on CHR 0x0A text) [] [] 0"

definition createGenericIndexFile :: "string \<Rightarrow> string list \<Rightarrow> string" where
  "createGenericIndexFile baseName created =
     join [CHR 0x0A]
       (map (\<lambda>file. ''export * from './'' @ basename_ext file ''.ts'' @ ''';'')
            (filter (\<lambda>file. \<not> str_includes file ''index'') created))
     @ [CHR 0x0A]"

definition chunk_steps :: "string \<Rightarrow> string \<Rightarrow> string \<Rightarrow> string list \<Rightarrow> writer list" where
  "chunk_steps dir baseName extension chunks =
     map (\<lambda>(i, chunk).
            push_write (path_join dir (baseName @ ''-part'' @ show_nat (i + 1) @ extension)) chunk)
         (enumerate 0 chunks)"

definition refactorReactComponent :: "engine \<Rightarrow> helpers \<Rightarrow> string \<Rightarrow> string \<Rightarrow> string list io" where
  "refactorReactComponent this h filePath text w =
     (let dir = dirname filePath;
          baseName = basename_ext filePath (extname filePath);
          extension = extname filePath;
          sections = extractReactComponentSections h text;
          imps = extractImportsSection h text
      in case run_all
          [only_if (types sections \<noteq> [])
             (push_write (path_join dir (baseName @ ''-types.ts''))
                (createTypesFile h
                   (filter (\<lambda>imp. str_includes imp ''type'' \<or> str_includes imp ''interface'' \<or>
                                  str_includes imp ''React'') imps)
                   (types sections))),
           only_if (utilities sections \<noteq> [])
             (push_write (path_join dir (baseName @ ''-utils.ts''))
                (createUtilsFile h
                   (filter (\<lambda>imp. \<not> str_includes imp ''React'' \<and> \<not> str_includes imp ''./'' \<and>
                                  \<not> str_includes imp ''@/'') imps)
                   (utilities sections))),
           only_if (subComponents sections \<noteq> [])
             (push_write (path_join dir (baseName @ ''-components'' @ extension))
                (createComponentsFile h imps (subComponents sections))),
           (\<lambda>s. push_write (path_join dir (baseName @ ''-main'' @ extension))
                  (createMainComponentFile h imps (mainComponent sections)
                     (map (path_relative h dir) (snd s))) s),
           (\<lambda>s. push_write (path_join dir (baseName @ ''-index'' @ extension))
                  (createReactIndexFile h baseName (snd s)) s)]
          (w, []) of
        (Inr _, s) \<Rightarrow> (Inr (snd s), fst s)
      | (Inl e, s) \<Rightarrow>
          returning_newFiles
            (run_all (chunk_steps dir baseName extension
                        (splitContentIntoChunks text (maxLines (config this)))) s))"

definition refactorGenericFile :: "engine \<Rightarrow> helpers \<Rightarrow> string \<Rightarrow> string \<Rightarrow> string list io" where
  "refactorGenericFile this h filePath text w =
     (let dir = dirname filePath;
          baseName = basename_ext filePath (extname filePath);
          extension = extname filePath
      in if extension = ''.tsx'' \<or> extension = ''.jsx''
         then refactorReactComponent this h filePath text w
         else returning_newFiles (run_all
                (chunk_steps dir baseName extension
                   (splitContentIntoChunks text (maxLines (config this)))
                 @ [\<lambda>s. push_write (path_join dir (baseName @ ''-index'' @ extension))
                          (createGenericIndexFile baseName (snd s)) s])
                (w, [])))"

subsection \<open>The transaction\<close>

text \<open>The file-type dispatch at the start of the \<open>try\<close> block of \<open>performRefactoring\<close>.\<close>

definition write_new_files :: "engine \<Rightarrow> helpers \<Rightarrow> string \<Rightarrow> string \<Rightarrow> string list io" where
  "write_new_files this h filePath text w =
     (if str_includes filePath ''GraphQLQueries'' \<or> str_includes filePath ''GraphQL''
      then refactorGraphQLFile h filePath text w
      else if str_includes filePath ''types'' \<and> str_includes filePath ''index.ts''
      then refactorTypesFile h filePath text w
      else refactorGenericFile this h filePath text w)"

text \<open>
  \<open>performRefactoring\<close>.  The backup is made before the \<open>try\<close> block.  \<open>createdFiles\<close> is
  filled only when the writing method has returned, so the \<open>catch\<close> block rolls back with
  an empty list when that method throws, and with the full list when the rollback after a
  failed verification throws.
\<close>

definition rollback_and_rethrow :: "string \<Rightarrow> string list \<Rightarrow> string \<Rightarrow> err \<Rightarrow> RefactorResult io" where
  "rollback_and_rethrow filePath createdFiles backupPath e w =
     (case rollbackRefactoring filePath createdFiles backupPath w of
        (Inl e', w') \<Rightarrow> (Inl e', w')
      | (Inr _, w') \<Rightarrow> (Inl e, w'))"

definition performRefactoring :: "engine \<Rightarrow> helpers \<Rightarrow> string \<Rightarrow> string \<Rightarrow> suggestions \<Rightarrow> RefactorResult io" where
  "performRefactoring this h filePath text sugg w =
     (case createBackup this filePath w of
        (Inl e, w1) \<Rightarrow> (Inl e, w1)
      | (Inr backupPath, w1) \<Rightarrow>
          (case write_new_files this h filePath text w1 of
             (Inl e, w2) \<Rightarrow> rollback_and_rethrow filePath [] backupPath e w2
           | (Inr createdFiles, w2) \<Rightarrow>
               (let verificationResult = verifyRefactoring filePath createdFiles w2 in
                if \<not> success verificationResult then
                  (case rollbackRefactoring filePath createdFiles backupPath w2 of
                     (Inl e, w3) \<Rightarrow> rollback_and_rethrow filePath createdFiles backupPath e w3
                   | (Inr _, w3) \<Rightarrow>
                       (Inr \<lparr>success = False, error = error verificationResult,
                             originalFile = filePath, newFiles = [], linesReduced = 0,
                             analysis = None\<rparr>, w3))
                else
                  (Inr \<lparr>success = True, error = None, originalFile = filePath,
                        newFiles = createdFiles, linesReduced = estimatedReduction sugg,
                        analysis = None\<rparr>, w2))))"

definition failed_result :: "string \<Rightarrow> err \<Rightarrow> RefactorResult" where
  "failed_result filePath e =
     \<lparr>success = False, error = Some (String_of e), originalFile = filePath, newFiles = [],
      linesReduced = 0, analysis = None\<rparr>"

definition refactorFile :: "engine \<Rightarrow> helpers \<Rightarrow> FileToRefactor \<Rightarrow> RefactorResult io" where
  "refactorFile this h file w =
     (case readFile (path file) w of
        (Inl e, w1) \<Rightarrow> (Inl e, w1)
      | (Inr text, w1) \<Rightarrow>
          (case performRefactoring this h (path file) text (analyzeFile h (path file) text) w1 of
             (Inl e, w2) \<Rightarrow> (Inr (failed_result (path file) e), w2)
           | (Inr result, w2) \<Rightarrow> (Inr result, w2)))"

section \<open>Scanning and running\<close>

text \<open>The inner loop of \<open>scan\<close> over the files that \<open>glob\<close> returns.\<close>

fun scan_files :: "engine \<Rightarrow> string \<Rightarrow> string list \<Rightarrow> FileToRefactor list \<Rightarrow> FileToRefactor list io" where
  "scan_files this fw [] filesToRefactor w = (Inr filesToRefactor, w)"
| "scan_files this fw (file # fs) filesToRefactor w =
     (case getFileLineCount file w of
        (Inl e, w') \<Rightarrow> (Inl e, w')
      | (Inr n, w') \<Rightarrow>
          if int n > maxLines (config this)
          then scan_files this fw fs
                 (filesToRefactor @ [\<lparr>path = file, file_lines = n, framework = fw\<rparr>]) w'
          else scan_files this fw fs filesToRefactor w')"

text \<open>The outer loop of \<open>scan\<close> over \<open>config.targetDirectories\<close>.\<close>

fun scan_dirs :: "engine \<Rightarrow> helpers \<Rightarrow> string \<Rightarrow> string list \<Rightarrow> FileToRefactor list \<Rightarrow> FileToRefactor list io" where
  "scan_dirs this h fw [] filesToRefactor w = (Inr filesToRefactor, w)"
| "scan_dirs this h fw (dir # dirs) filesToRefactor w =
     (let targetDir = path_join (projectRoot this) dir in
      if \<not> existsSync targetDir w then scan_dirs this h fw dirs filesToRefactor w
      else
        (case scan_files this fw
                (glob h w
                   (targetDir @ ''/**/*{'' @ join '','' (fileExtensions (config this)) @ ''}'')
                   (map (\<lambda>pattern. path_join (projectRoot this) pattern)
                        (excludePatterns (config this))))
                filesToRefactor w of
           (Inl e, w') \<Rightarrow> (Inl e, w')
         | (Inr found, w') \<Rightarrow> scan_dirs this h fw dirs found w'))"

definition scan :: "engine \<Rightarrow> helpers \<Rightarrow> FileToRefactor list io" where
  "scan this h w = scan_dirs this h (detectFramework h w) (targetDirectories (config this)) [] w"

text \<open>\<open>path.resolve(projectRoot, p)\<close> for an absolute project root: \<open>p\<close> is taken relative
  to the root unless it is absolute, and the result is normalised: empty segments and
  \<open>.\<close> are dropped, and \<open>..\<close> drops the segment before it, if there is one.\<close>

fun resolve_segments :: "string list \<Rightarrow> string list \<Rightarrow> string list" where
  "resolve_segments resolved [] = rev resolved"
| "resolve_segments resolved (segment # segments) =
     (if segment = [] \<or> segment = ''.'' then resolve_segments resolved segments
      else if segment = ''..'' then resolve_segments (drop 1 resolved) segments
      else resolve_segments (segment # resolved) segments)"

definition path_resolve :: "string \<Rightarrow> string \<Rightarrow> string" where
  "path_resolve from p =
     ''/'' @ join ''/''
       (resolve_segments []
          (split_on CHR ''/'' (if startsWith p ''/'' then p else from @ ''/'' @ p)))"

text \<open>The branch of \<open>run\<close> for \<open>options.specificFile\<close>.\<close>

definition specific_file :: "engine \<Rightarrow> string \<Rightarrow> FileToRefactor list io" where
  "specific_file this name w =
     (let absolutePath = path_resolve (projectRoot this) name in
      if \<not> existsSync absolutePath w then (Inl (Err (''File not found: '' @ name)), w)
      else if files w absolutePath = None then (Inl (Err (''Path is not a file: '' @ name)), w)
      else
        (let extension = extname absolutePath in
         if extension \<notin> set (fileExtensions (config this))
         then (Inl (Err (''File extension '' @ extension
                 @ '' is not supported. Supported extensions: ''
                 @ join '', '' (fileExtensions (config this)))), w)
         else
           (case getFileLineCount absolutePath w of
              (Inl e, w') \<Rightarrow> (Inl e, w')
            | (Inr lineCount, w') \<Rightarrow>
                (Inr [\<lparr>path = absolutePath, file_lines = lineCount,
                       framework = (if str_includes extension ''tsx'' \<or> str_includes extension ''jsx''
                                    then ''react'' else ''typescript'')\<rparr>], w'))))"

text \<open>The body of the \<open>try\<close> block in the loop of \<open>run\<close>, for one file.  An option that is
  absent is \<open>None\<close>: \<open>options.dryRun\<close> is truthy when it is \<open>Some True\<close>, and
  \<open>options.createBackups !== false\<close> unless it is \<open>Some False\<close>.\<close>

definition run_one :: "engine \<Rightarrow> helpers \<Rightarrow> RunOptions \<Rightarrow> FileToRefactor \<Rightarrow> RefactorResult io" where
  "run_one this h options file w =
     (if dryRun options = Some True then
        (case readFile (path file) w of
           (Inl e, w') \<Rightarrow> (Inl e, w')
         | (Inr text, w') \<Rightarrow>
             (Inr \<lparr>success = True, error = None, originalFile = path file,
                   newFiles = suggestedFiles (analyzeFile h (path file) text),
                   linesReduced = estimatedReduction (analyzeFile h (path file) text),
                   analysis = Some (analysis' (analyzeFile h (path file) text))\<rparr>, w'))
      else
        (case (if createBackups options \<noteq> Some False
               then createBackup this (path file) w else (Inr [], w)) of
           (Inl e, w') \<Rightarrow> (Inl e, w')
         | (Inr _, w') \<Rightarrow> refactorFile this h file w'))"

text \<open>The loop of \<open>run\<close>: what the \<open>try\<close> block throws becomes a failed result.\<close>

fun run_files :: "engine \<Rightarrow> helpers \<Rightarrow> RunOptions \<Rightarrow> FileToRefactor list \<Rightarrow> RefactorResult list \<Rightarrow> world \<Rightarrow> RefactorResult list \<times> world" where
  "run_files this h options [] results w = (results, w)"
| "run_files this h options (file # fs) results w =
     (case run_one this h options file w of
        (Inl e, w') \<Rightarrow> run_files this h options fs (results @ [failed_result (path file) e]) w'
      | (Inr result, w') \<Rightarrow> run_files this h options fs (results @ [result]) w')"

definition run :: "engine \<Rightarrow> helpers \<Rightarrow> RunOptions \<Rightarrow> RefactorResult list io" where
  "run this h options w =
     (case (case specificFile options of
              None \<Rightarrow> scan this h w
            | Some name \<Rightarrow> if name = [] then scan this h w else specific_file this name w) of
        (Inl e, w') \<Rightarrow> (Inl e, w')
      | (Inr filesToRefactor, w') \<Rightarrow>
          if filesToRefactor = [] then (Inr [], w')
          else (case run_files this h options filesToRefactor [] w' of
                  (results, w'') \<Rightarrow> (Inr results, w'')))"

text \<open>An engine and helpers for the examples: the default configuration of \<open>loadConfig\<close>,
  a project at \<open>/p\<close>, and helpers that find nothing.\<close>

definition example_engine :: engine where
  "example_engine =
     \<lparr>config = \<lparr>maxLines = 200, targetDirectories = [''src'', ''components'', ''lib'', ''utils''],
                 fileExtensions = [''.tsx'', ''.ts'', ''.jsx'', ''.js''],
                 excludePatterns = [''node_modules'', ''.next'', ''*.test.*'', ''dist'', ''build'']\<rparr>,
      projectRoot = ''/p''\<rparr>"

definition example_helpers :: helpers where
  "example_helpers =
     \<lparr>analyzeFile = (\<lambda>p t. \<lparr>suggestedFiles = [dirname p @ ''/'' @ basename_ext p (extname p)
                                   @ ''-part1'' @ extname p],
                              estimatedReduction = 0, analysis' = []\<rparr>),
      detectFramework = (\<lambda>w. ''unknown''),
      glob = (\<lambda>w pattern ignore. if startsWith pattern ''/p/src/'' then [''/p/src/a.ts''] else []),
      path_relative = (\<lambda>d p. basename p),
      extractFragments = (\<lambda>t. []),
      fragmentsFileContent = (\<lambda>t. []),
      extractQueriesByPattern = (\<lambda>t r. []),
      extractRemainingQueries = (\<lambda>t. []),
      queriesFileContent = (\<lambda>t b n q. []),
      createGraphQLIndexFile = (\<lambda>b fs. []),
      createGraphQLMainFile = (\<lambda>b fs. []),
      extractCommonTypes = (\<lambda>t. []),
      extractTypesByPattern = (\<lambda>t r. []),
      extractCommonTypeNames = (\<lambda>ts. []),
      createTypesIndexFile = (\<lambda>fs. []),
      extractReactComponentSections = (\<lambda>t. parseReactFile t),
      extractImportsSection = (\<lambda>t. []),
      createTypesFile = (\<lambda>i t. []),
      createUtilsFile = (\<lambda>i t. []),
      createComponentsFile = (\<lambda>i t. []),
      createMainComponentFile = (\<lambda>i m r. []),
      createReactIndexFile = (\<lambda>b fs. [])\<rparr>"

text \<open>A project for the examples: one file \<open>/p/src/a.ts\<close> whose only line opens a brace
  that is never closed.\<close>

definition example_project :: world where
  "example_project =
     empty_world\<lparr>files := (\<lambda>p. None)(''/p/src/a.ts'' \<mapsto> ''function f() {''),
                  dir_exists := (\<lambda>p. p = ''/p/src'')\<rparr>"

section \<open>Verified properties\<close>

subsection \<open>Export identifiers\<close>

lemma join_empty_sep: "sep = [] \<Longrightarrow> join sep xs = concat xs"
  by (induction sep xs rule: join.induct) simp_all

lemma upper_first_eq: "toUpperCase (take (Suc 0) part) @ drop (Suc 0) part = upper_first part"
  by (cases part) (simp_all add: toUpperCase_def)

text \<open>\<open>extractMainComponentName\<close> is the reference derivation, for every name.\<close>

lemma extractMainComponentName_is_reference:
  "extractMainComponentName fileName = pascal_reference fileName"
  by (simp add: extractMainComponentName_def pascal_reference_def join_empty_sep upper_first_eq)

text \<open>
  Claim C7: for every hyphenated base name, \<open>toPascalCase\<close> (and equally
  \<open>extractMainComponentName\<close>) equals the reference derivation: split on hyphens,
  upper-case the first character of each segment, concatenate.

  \<open>toPascalCase\<close> replaces a hyphen only together with a following lower-case letter
  \<open>[a-z]\<close>.  For the base name \<open>user-profile-2\<close> (of a file \<open>user-profile-2.tsx\<close>) the
  last hyphen stays, and the result is not an identifier, while the reference and
  \<open>extractMainComponentName\<close> give \<open>UserProfile2\<close>.
\<close>

theorem toPascalCase_keeps_hyphen:
  "toPascalCase ''user-profile-2'' = ''UserProfile-2'' \<and>
   pascal_reference ''user-profile-2'' = ''UserProfile2'' \<and>
   extractMainComponentName ''user-profile-2'' = ''UserProfile2''"
  by code_simp

subsection \<open>Main component\<close>

text \<open>
  Claim C6: a component block is classified as the Main component if and only if its
  declared identifier is the file's default export, or it is declared in an explicit
  export-function form, or its identifier has a role suffix; every other component block
  is a SubComponent.

  A component declared as \<open>export default function Main() {\<close> is the file's default
  export.  \<open>isMainComponent\<close> looks for the text \<open>export default Main\<close>, which the
  inline form does not contain; the line does not contain \<open>export function\<close> either, and
  \<open>Main\<close> has no role suffix.  The block is a component, it is not classified as Main, and
  \<open>parseReactFile\<close> files it under \<open>subComponents\<close>, leaving \<open>mainComponent\<close> empty.
\<close>

theorem inline_default_export_not_main:
  "isComponent (trim ''export default function Main() {'') \<and>
   isMainComponent [''export default function Main() {'', ''  return null;'', ''}''] 0
     = Some False \<and>
   parseReactFile
     (join [CHR 0x0A] [''export default function Main() {'', ''  return null;'', ''}'']) =
     \<lparr>imports' = [], types = [], constants = [], utilities = [],
      subComponents =
        [join [CHR 0x0A] [''export default function Main() {'', ''  return null;'', ''}'']],
      mainComponent = []\<rparr>"
  by code_simp

subsection \<open>Facts about strings\<close>

lemma startsWith_iff: "startsWith s t \<longleftrightarrow> (\<exists>r. s = t @ r)"
  by (induction s t rule: startsWith.induct) auto

lemma str_includes_iff: "str_includes s t \<longleftrightarrow> (\<exists>p r. s = p @ t @ r)"
proof (induction s)
  case Nil
  then show ?case by simp
next
  case (Cons x s)
  show ?case
  proof
    assume "str_includes (x # s) t"
    then consider "startsWith (x # s) t" | "str_includes s t" by auto
    then show "\<exists>p r. x # s = p @ t @ r"
    proof cases
      case 1
      then obtain r where "x # s = t @ r" by (auto simp: startsWith_iff)
      then have "x # s = [] @ t @ r" by simp
      then show ?thesis by blast
    next
      case 2
      then obtain p r where "s = p @ t @ r" using Cons.IH by blast
      then have "x # s = (x # p) @ t @ r" by simp
      then show ?thesis by blast
    qed
  next
    assume "\<exists>p r. x # s = p @ t @ r"
    then obtain p r where e: "x # s = p @ t @ r" by blast
    show "str_includes (x # s) t"
    proof (cases p)
      case Nil
      with e have "startsWith (x # s) t" by (auto simp: startsWith_iff)
      then show ?thesis by simp
    next
      case (Cons y p')
      with e have "s = p' @ t @ r" by simp
      then have "str_includes s t" using Cons.IH by blast
      then show ?thesis by simp
    qed
  qed
qed

lemma str_includes_prefix: "str_includes s (a @ b) \<Longrightarrow> str_includes s a"
  by (auto simp: str_includes_iff)

subsection \<open>Determinism of the classifier\<close>

lemma default_export_search:
  "list_ex (\<lambda>l. str_includes l (''export default '' @ n)) ls
     = list_ex (\<lambda>l. str_includes l (''export default '' @ n)) (default_export_decls ls)"
  using str_includes_prefix [of _ "''export default ''" n]
  by (auto simp: default_export_decls_def list_ex_iff)

lemma isMainComponent_depends:
  assumes "i < length lines" and "i' < length lines'" and "lines ! i = lines' ! i'"
    and "default_export_decls (drop i lines) = default_export_decls (drop i' lines')"
  shows "isMainComponent lines i = isMainComponent lines' i'"
  using assms default_export_search [of _ "drop i lines"] default_export_search [of _ "drop i' lines'"]
  by (simp add: isMainComponent_def Let_def split: option.splits)

text \<open>
  Claim C8 (as amended): the category of a block depends only on the first line of the
  block and on the default-export declarations found at or after that line.  Two files
  that agree on both give the block the same category, whatever precedes the block and
  whatever the scanner has collected before: \<open>block_category\<close> takes no accumulator and
  no instance state, and \<open>parseReactFile_step_category\<close> shows that one iteration of the
  loop of \<open>parseReactFile\<close> files the block by exactly this category.
\<close>

theorem category_depends_on_first_line_and_later_default_exports:
  assumes "i < length lines" and "i' < length lines'" and "lines ! i = lines' ! i'"
    and "default_export_decls (drop i lines) = default_export_decls (drop i' lines')"
  shows "block_category lines i = block_category lines' i'"
  using assms isMainComponent_depends [OF assms]
  by (simp add: block_category_def Let_def)

text \<open>The theorem at a block that follows a comment line in one file and starts the other
  file.\<close>

theorem category_depends_witness:
  "(0::nat) < length [''function Foo() {'', ''}'', ''export default Foo;''] \<and>
   (1::nat) < length [''// header'', ''function Foo() {'', ''}'', ''export default Foo;''] \<and>
   block_category [''function Foo() {'', ''}'', ''export default Foo;''] 0
     = block_category [''// header'', ''function Foo() {'', ''}'', ''export default Foo;''] 1 \<and>
   block_category [''function Foo() {'', ''}'', ''export default Foo;''] 0 = Some Main"
proof -
  let ?A = "[''function Foo() {'', ''}'', ''export default Foo;'']"
  let ?B = "[''// header'', ''function Foo() {'', ''}'', ''export default Foo;'']"
  have h1: "(0::nat) < length ?A" by simp
  have h2: "(1::nat) < length ?B" by simp
  have h3: "?A ! 0 = ?B ! 1" by simp
  have h4: "default_export_decls (drop 0 ?A) = default_export_decls (drop 1 ?B)"
    by (simp add: default_export_decls_def)
  have h5: "block_category ?A 0 = Some Main" by code_simp
  show ?thesis
    using category_depends_on_first_line_and_later_default_exports [OF h1 h2 h3 h4] h5 by simp
qed

text \<open>
  Claim C8 as stated (identical block text and the same file-level default-export
  declaration give the same category) fails: \<open>isMainComponent\<close> searches the default
  export from the block's first line on, so a declaration \<open>export default Foo;\<close> above
  the block is not seen.  The two files below contain the same block and the same
  default-export declaration; the block is a SubComponent in the first and Main in the
  second.
\<close>

theorem category_depends_on_position_of_default_export:
  "[''export default Foo;'', ''function Foo() {'', ''}''] ! 1
     = [''function Foo() {'', ''}'', ''export default Foo;''] ! 0 \<and>
   content (extractBlock [''export default Foo;'', ''function Foo() {'', ''}''] 1 ''function'')
     = content (extractBlock [''function Foo() {'', ''}'', ''export default Foo;''] 0 ''function'') \<and>
   default_export_decls [''export default Foo;'', ''function Foo() {'', ''}'']
     = default_export_decls [''function Foo() {'', ''}'', ''export default Foo;''] \<and>
   block_category [''export default Foo;'', ''function Foo() {'', ''}''] 1 = Some SubComponent \<and>
   block_category [''function Foo() {'', ''}'', ''export default Foo;''] 0 = Some Main"
  by code_simp

subsection \<open>Line ranges of the scanned blocks\<close>

lemma findEndOfImport_loop_le:
  "i \<le> length lines \<Longrightarrow> findEndOfImport_loop lines i bc \<le> int (length lines) - 1"
proof (induction lines i bc rule: findEndOfImport_loop.induct)
  case (1 lines i braceCount)
  show ?case
    by (subst findEndOfImport_loop.simps)
       (use 1 (2) 1 (1) [OF _ refl refl] in \<open>auto simp: Let_def split: if_splits\<close>)
qed

lemma findEndOfTypeDefinition_loop_le:
  "i \<le> length lines \<Longrightarrow> findEndOfTypeDefinition_loop lines i bc f \<le> int (length lines) - 1"
proof (induction lines i bc f rule: findEndOfTypeDefinition_loop.induct)
  case (1 lines i braceCount found)
  show ?case
    by (subst findEndOfTypeDefinition_loop.simps)
       (use 1 (2) 1 (1) [OF _ refl refl] in \<open>auto simp: Let_def split: if_splits\<close>)
qed

lemma findEndOfFunction_loop_le:
  "i \<le> length lines \<Longrightarrow> findEndOfFunction_loop lines i bc f \<le> int (length lines) - 1"
proof (induction lines i bc f rule: findEndOfFunction_loop.induct)
  case (1 lines i braceCount found)
  show ?case
    by (subst findEndOfFunction_loop.simps)
       (use 1 (2) 1 (1) [OF _ refl refl] in \<open>auto simp: Let_def split: if_splits\<close>)
qed

lemma findEndOfConstant_loop_le:
  "i \<le> length lines \<Longrightarrow> findEndOfConstant_loop lines i bc f \<le> int (length lines) - 1"
proof (induction lines i bc f rule: findEndOfConstant_loop.induct)
  case (1 lines i braceCount found)
  show ?case
    by (subst findEndOfConstant_loop.simps)
       (use 1 (2) 1 (1) [OF _ refl refl] in \<open>auto simp: Let_def split: if_splits\<close>)
qed

lemma extractBlock_endIndex_lt:
  "i < length lines \<Longrightarrow> endIndex (extractBlock lines i blockType) < int (length lines)"
  using findEndOfImport_loop_le [of i lines 0] findEndOfTypeDefinition_loop_le [of i lines 0 False]
    findEndOfFunction_loop_le [of i lines 0 False] findEndOfConstant_loop_le [of i lines 0 False]
  by (simp add: extractBlock_def Let_def findEndOfImport_def findEndOfTypeDefinition_def
        findEndOfConstant_def findEndOfFunction_def)


lemma extractBlock_content: "content (extractBlock lines i bt) = block_text lines i (endIndex (extractBlock lines i bt))"
  by (simp add: extractBlock_def Let_def block_text_def)
lemma scan_blocks_member:
  "(c, s, e) \<in> set (scan_blocks lines i) \<Longrightarrow>
     i \<le> s \<and> s < length lines \<and> int s \<le> e \<and> e < int (length lines) \<and>
     block_category lines s = Some c \<and> e = endIndex (extractBlock lines s (blockType_of c))"
proof (induction lines i rule: scan_blocks.induct)
  case (1 lines i)
  show ?case
  proof (cases "i < length lines")
    case False
    with 1(3) show ?thesis by (simp add: scan_blocks.simps)
  next
    case True
    show ?thesis
    proof (cases "block_category lines i")
      case None
      with True 1(3) have "(c, s, e) \<in> set (scan_blocks lines (i + 1))"
        by (simp add: scan_blocks.simps [of lines i])
      from 1(1) [OF True None this] show ?thesis by simp
    next
      case (Some c')
      let ?e = "endIndex (extractBlock lines i (blockType_of c'))"
      from True Some 1(3)
      consider "(c, s, e) = (c', i, ?e)" | "(c, s, e) \<in> set (scan_blocks lines (nat (?e + 1)))"
        by (auto simp: scan_blocks.simps [of lines i])
      then show ?thesis
      proof cases
        case 1
        then show ?thesis
          using True Some extractBlock_endIndex_ge [OF True] extractBlock_endIndex_lt [OF True]
          by simp
      next
        case 2
        from 1(2) [OF True Some 2] extractBlock_endIndex_ge [OF True, of "blockType_of c'"]
        show ?thesis by auto
      qed
    qed
  qed
qed
lemma scan_blocks_unfold_Some:
  "i < length lines \<Longrightarrow> block_category lines i = Some c \<Longrightarrow>
     scan_blocks lines i =
       (c, i, endIndex (extractBlock lines i (blockType_of c)))
         # scan_blocks lines (nat (endIndex (extractBlock lines i (blockType_of c)) + 1))"
  by (simp add: scan_blocks.simps [of lines i])

lemma scan_blocks_unfold_None:
  "i < length lines \<Longrightarrow> block_category lines i = None \<Longrightarrow>
     scan_blocks lines i = scan_blocks lines (i + 1)"
  by (simp add: scan_blocks.simps [of lines i])

lemma scan_blocks_sorted:
  "sorted_wrt (\<lambda>b b'. snd (snd b) < int (fst (snd b'))) (scan_blocks lines i)"
proof (induction lines i rule: scan_blocks.induct)
  case (1 lines i)
  show ?case
  proof (cases "i < length lines")
    case False
    then have "scan_blocks lines i = []" by (subst scan_blocks.simps) simp
    then show ?thesis by simp
  next
    case True
    show ?thesis
    proof (cases "block_category lines i")
      case None
      show ?thesis
        unfolding scan_blocks_unfold_None [OF True None] by (rule 1(1) [OF True None])
    next
      case (Some c')
      let ?e = "endIndex (extractBlock lines i (blockType_of c'))"
      have tail: "\<forall>b \<in> set (scan_blocks lines (nat (?e + 1))). ?e < int (fst (snd b))"
      proof
        fix b
        assume b: "b \<in> set (scan_blocks lines (nat (?e + 1)))"
        obtain c s e where "b = (c, s, e)" by (cases b)
        with scan_blocks_member [of c s e lines "nat (?e + 1)"] b have "nat (?e + 1) \<le> s"
          by simp
        with \<open>b = (c, s, e)\<close> show "?e < int (fst (snd b))" by simp
      qed
      have "sorted_wrt (\<lambda>b b'. snd (snd b) < int (fst (snd b'))) (scan_blocks lines (nat (?e + 1)))"
        by (rule 1(2) [OF True Some])
      with tail show ?thesis
        by (simp add: scan_blocks_unfold_Some [OF True Some])
    qed
  qed
qed
lemma covering_at_most_one:
  "sorted_wrt (\<lambda>b b'. snd (snd b) < int (fst (snd b'))) bs \<Longrightarrow> length (covering bs j) \<le> 1"
proof (induction bs)
  case Nil
  then show ?case by (simp add: covering_def)
next
  case (Cons b bs)
  obtain c s e where b: "b = (c, s, e)" by (cases b)
  show ?case
  proof (cases "s \<le> j \<and> int j \<le> e")
    case True
    from Cons.prems b have "\<forall>b' \<in> set bs. e < int (fst (snd b'))" by simp
    with True have "covering bs j = []"
      by (auto simp: covering_def filter_empty_conv)
    with True b show ?thesis by (simp add: covering_def)
  next
    case False
    with Cons b show ?thesis by (auto simp: covering_def)
  qed
qed
lemma scan_blocks_uncovered:
  "i \<le> j \<Longrightarrow> j < length lines \<Longrightarrow> covering (scan_blocks lines i) j = [] \<Longrightarrow>
     block_category lines j = None"
proof (induction lines i rule: scan_blocks.induct)
  case (1 lines i)
  from 1(3,4) have True: "i < length lines" by simp
  show ?case
  proof (cases "block_category lines i")
    case None
    show ?thesis
    proof (cases "j = i")
      case True
      with None show ?thesis by simp
    next
      case False
      with 1(3) have "i + 1 \<le> j" by simp
      moreover from True None 1(5) have "covering (scan_blocks lines (i + 1)) j = []"
        by (simp add: scan_blocks.simps [of lines i])
      ultimately show ?thesis using 1(1) [OF True None] 1(4) by blast
    qed
  next
    case (Some c')
    let ?e = "endIndex (extractBlock lines i (blockType_of c'))"
    from True Some 1(5) have nc: "\<not> (i \<le> j \<and> int j \<le> ?e)"
      and rest: "covering (scan_blocks lines (nat (?e + 1))) j = []"
      by (auto simp: scan_blocks.simps [of lines i] covering_def split: if_splits)
    from nc 1(3) have "nat (?e + 1) \<le> j" by linarith
    with 1(2) [OF True Some] 1(4) rest show ?thesis by blast
  qed
qed
lemma parseReactFile_loop_blocks:
  "parseReactFile_loop lines i result =
     foldl (\<lambda>r b. add_block (fst b) (block_text lines (fst (snd b)) (snd (snd b))) r) result
       (scan_blocks lines i)"
proof (induction lines i arbitrary: result rule: scan_blocks.induct)
  case (1 lines i)
  show ?case
  proof (cases "i < length lines")
    case False
    then have "scan_blocks lines i = []" by (subst scan_blocks.simps) simp
    moreover from False have "parseReactFile_loop lines i result = result"
      by (subst parseReactFile_loop.simps) simp
    ultimately show ?thesis by simp
  next
    case True
    show ?thesis
    proof (cases "block_category lines i")
      case None
      from True None have "parseReactFile_loop lines i result = parseReactFile_loop lines (i + 1) result"
        by (subst parseReactFile_loop.simps) (simp add: parseReactFile_step_category)
      with 1(1) [OF True None] show ?thesis
        by (simp add: scan_blocks_unfold_None [OF True None])
    next
      case (Some c)
      let ?b = "extractBlock lines i (blockType_of c)"
      from True Some have "parseReactFile_loop lines i result =
          parseReactFile_loop lines (nat (endIndex ?b + 1)) (add_block c (content ?b) result)"
        by (subst parseReactFile_loop.simps) (simp add: parseReactFile_step_category)
      with 1(2) [OF True Some] show ?thesis
        by (simp add: scan_blocks_unfold_Some [OF True Some] extractBlock_content)
    qed
  qed
qed

lemma foldl_add_block_imports:
  "imports' (foldl (\<lambda>r b. add_block (fst b) (block_text lines (fst (snd b)) (snd (snd b))) r) result bs)
     = imports' result @ texts_of Import lines bs"
proof (induction bs arbitrary: result)
  case Nil
  then show ?case by (simp add: texts_of_def)
next
  case (Cons b bs)
  obtain c s e where "b = (c, s, e)" by (cases b)
  then show ?case using Cons.IH by (cases c) (simp_all add: texts_of_def)
qed

lemma foldl_add_block_types:
  "types (foldl (\<lambda>r b. add_block (fst b) (block_text lines (fst (snd b)) (snd (snd b))) r) result bs)
     = types result @ texts_of TypeDef lines bs"
proof (induction bs arbitrary: result)
  case Nil
  then show ?case by (simp add: texts_of_def)
next
  case (Cons b bs)
  obtain c s e where "b = (c, s, e)" by (cases b)
  then show ?case using Cons.IH by (cases c) (simp_all add: texts_of_def)
qed

lemma foldl_add_block_constants:
  "constants (foldl (\<lambda>r b. add_block (fst b) (block_text lines (fst (snd b)) (snd (snd b))) r) result bs)
     = constants result @ texts_of Constant lines bs"
proof (induction bs arbitrary: result)
  case Nil
  then show ?case by (simp add: texts_of_def)
next
  case (Cons b bs)
  obtain c s e where "b = (c, s, e)" by (cases b)
  then show ?case using Cons.IH by (cases c) (simp_all add: texts_of_def)
qed

lemma foldl_add_block_utilities:
  "utilities (foldl (\<lambda>r b. add_block (fst b) (block_text lines (fst (snd b)) (snd (snd b))) r) result bs)
     = utilities result @ texts_of Utility lines bs"
proof (induction bs arbitrary: result)
  case Nil
  then show ?case by (simp add: texts_of_def)
next
  case (Cons b bs)
  obtain c s e where "b = (c, s, e)" by (cases b)
  then show ?case using Cons.IH by (cases c) (simp_all add: texts_of_def)
qed

lemma foldl_add_block_subComponents:
  "subComponents (foldl (\<lambda>r b. add_block (fst b) (block_text lines (fst (snd b)) (snd (snd b))) r) result bs)
     = subComponents result @ texts_of SubComponent lines bs"
proof (induction bs arbitrary: result)
  case Nil
  then show ?case by (simp add: texts_of_def)
next
  case (Cons b bs)
  obtain c s e where "b = (c, s, e)" by (cases b)
  then show ?case using Cons.IH by (cases c) (simp_all add: texts_of_def)
qed

lemma foldl_add_block_mainComponent:
  "length (texts_of Main lines bs) \<le> 1 \<Longrightarrow>
   mainComponent (foldl (\<lambda>r b. add_block (fst b) (block_text lines (fst (snd b)) (snd (snd b))) r) result bs)
     = (if texts_of Main lines bs = [] then mainComponent result else concat (texts_of Main lines bs))"
proof (induction bs arbitrary: result)
  case Nil
  then show ?case by (simp add: texts_of_def)
next
  case (Cons b bs)
  obtain c s e where "b = (c, s, e)" by (cases b)
  then show ?case using Cons.IH Cons.prems by (cases c) (simp_all add: texts_of_def)
qed

text \<open>
  Claim C3 (as amended): for every input, the blocks that \<open>parseReactFile\<close> extracts are
  line ranges inside the file, each starting at a line that matches one of the
  block-start rules, in ascending order and pairwise disjoint, so that no line lies in
  more than one block; a line outside all blocks is a line at which no block-start rule
  matched, and it is attributed to no block.  The fields \<open>imports\<close>, \<open>types\<close>,
  \<open>constants\<close>, \<open>utilities\<close> and \<open>subComponents\<close> hold the texts of the blocks of their
  category in the order of the file, and \<open>mainComponent\<close> the text of the Main block when
  there is at most one.
\<close>

theorem scanner_blocks_disjoint_and_cover_matched_lines:
  "imports' (parseReactFile text) = texts_of Import (source_lines text) (scanned_blocks text) \<and>
   types (parseReactFile text) = texts_of TypeDef (source_lines text) (scanned_blocks text) \<and>
   constants (parseReactFile text) = texts_of Constant (source_lines text) (scanned_blocks text) \<and>
   utilities (parseReactFile text) = texts_of Utility (source_lines text) (scanned_blocks text) \<and>
   subComponents (parseReactFile text)
     = texts_of SubComponent (source_lines text) (scanned_blocks text) \<and>
   (length (texts_of Main (source_lines text) (scanned_blocks text)) \<le> 1 \<longrightarrow>
      mainComponent (parseReactFile text)
        = concat (texts_of Main (source_lines text) (scanned_blocks text))) \<and>
   (\<forall>(c, s, e) \<in> set (scanned_blocks text).
      s < length (source_lines text) \<and> int s \<le> e \<and> e < int (length (source_lines text)) \<and>
      block_category (source_lines text) s = Some c) \<and>
   sorted_wrt (\<lambda>b b'. snd (snd b) < int (fst (snd b'))) (scanned_blocks text) \<and>
   (\<forall>j < length (source_lines text).
      length (covering (scanned_blocks text) j) \<le> 1 \<and>
      (covering (scanned_blocks text) j = [] \<longrightarrow> block_category (source_lines text) j = None))"
proof -
  let ?lines = "source_lines text" and ?bs = "scanned_blocks text"
  let ?r0 = "\<lparr>imports' = [], types = [], constants = [], utilities = [], subComponents = [],
              mainComponent = []\<rparr>"
  have loop: "parseReactFile text =
      foldl (\<lambda>r b. add_block (fst b) (block_text ?lines (fst (snd b)) (snd (snd b))) r) ?r0 ?bs"
    by (simp add: parseReactFile_def source_lines_def scanned_blocks_def parseReactFile_loop_blocks)
  have f1: "imports' (parseReactFile text) = texts_of Import ?lines ?bs"
    by (simp add: loop foldl_add_block_imports)
  have f2: "types (parseReactFile text) = texts_of TypeDef ?lines ?bs"
    by (simp add: loop foldl_add_block_types)
  have f3: "constants (parseReactFile text) = texts_of Constant ?lines ?bs"
    by (simp add: loop foldl_add_block_constants)
  have f4: "utilities (parseReactFile text) = texts_of Utility ?lines ?bs"
    by (simp add: loop foldl_add_block_utilities)
  have f5: "subComponents (parseReactFile text) = texts_of SubComponent ?lines ?bs"
    by (simp add: loop foldl_add_block_subComponents)
  have f6: "length (texts_of Main ?lines ?bs) \<le> 1 \<longrightarrow>
              mainComponent (parseReactFile text) = concat (texts_of Main ?lines ?bs)"
    by (simp add: loop foldl_add_block_mainComponent)
  have f7: "\<forall>(c, s, e) \<in> set ?bs.
      s < length ?lines \<and> int s \<le> e \<and> e < int (length ?lines) \<and>
      block_category ?lines s = Some c"
    using scan_blocks_member [of _ _ _ ?lines 0] unfolding scanned_blocks_def by blast
  have f8: "sorted_wrt (\<lambda>b b'. snd (snd b) < int (fst (snd b'))) ?bs"
    unfolding scanned_blocks_def by (rule scan_blocks_sorted)
  have f9: "\<forall>j < length ?lines.
      length (covering ?bs j) \<le> 1 \<and> (covering ?bs j = [] \<longrightarrow> block_category ?lines j = None)"
    using covering_at_most_one [OF f8] scan_blocks_uncovered [of 0 _ ?lines]
    unfolding scanned_blocks_def by simp
  from f1 f2 f3 f4 f5 f6 f7 f8 f9 show ?thesis by (intro conjI)
qed

text \<open>The theorem at a file of four lines: one Main block over the first three lines, and
  the default-export statement in no block.\<close>

theorem scanner_blocks_witness:
  "scanned_blocks
     (join [CHR 0x0A] [''function Main() {'', ''  return null;'', ''}'', ''export default Main;''])
     = [(Main, 0, 2)] \<and>
   mainComponent (parseReactFile
     (join [CHR 0x0A] [''function Main() {'', ''  return null;'', ''}'', ''export default Main;'']))
     = join [CHR 0x0A] [''function Main() {'', ''  return null;'', ''}''] \<and>
   block_category (source_lines
     (join [CHR 0x0A] [''function Main() {'', ''  return null;'', ''}'', ''export default Main;''])) 3
     = None"
proof -
  let ?T = "join [CHR 0x0A] [''function Main() {'', ''  return null;'', ''}'', ''export default Main;'']"
  have bs: "scanned_blocks ?T = [(Main, 0, 2)]" by code_simp
  have n: "(3::nat) < length (source_lines ?T)" by code_simp
  have c: "covering (scanned_blocks ?T) 3 = []" by code_simp
  have m: "length (texts_of Main (source_lines ?T) (scanned_blocks ?T)) \<le> 1" by code_simp
  have t: "concat (texts_of Main (source_lines ?T) (scanned_blocks ?T))
             = join [CHR 0x0A] [''function Main() {'', ''  return null;'', ''}'']" by code_simp
  from scanner_blocks_disjoint_and_cover_matched_lines [of ?T] n c m
  have "mainComponent (parseReactFile ?T) = concat (texts_of Main (source_lines ?T) (scanned_blocks ?T))"
    and "block_category (source_lines ?T) 3 = None"
    by blast+
  with bs t show ?thesis by simp
qed

text \<open>
  Claim C3 as stated (the blocks cover every non-blank, non-comment line exactly once)
  fails on a file with balanced delimiters: the statement \<open>export default Main;\<close> is
  neither blank nor a comment, and no block contains it, because a line that matches no
  block-start rule is skipped by the loop.
\<close>

theorem default_export_line_in_no_block:
  "delims_balanced []
     (join [CHR 0x0A] [''function Main() {'', ''  return null;'', ''}'', ''export default Main;'']) \<and>
   \<not> is_blank_line ''export default Main;'' \<and>
   \<not> is_comment_line ''export default Main;'' \<and>
   parseReactFile
     (join [CHR 0x0A] [''function Main() {'', ''  return null;'', ''}'', ''export default Main;''])
     = \<lparr>imports' = [], types = [], constants = [], utilities = [], subComponents = [],
        mainComponent = join [CHR 0x0A] [''function Main() {'', ''  return null;'', ''}'']\<rparr> \<and>
   \<not> covers_code_lines_once
     (join [CHR 0x0A] [''function Main() {'', ''  return null;'', ''}'', ''export default Main;''])"
  by code_simp

subsection \<open>Import dependency filter\<close>

text \<open>
  Claim C5: both filtering routines retain an import if and only if one of its imported
  names occurs in the group text as a whole identifier; a name that occurs only inside a
  larger identifier does not retain the import.

  \<open>filterUsedTypes\<close> matches with word boundaries.  \<open>getRequiredImports\<close> tests
  \<open>content.includes(name)\<close>: for the text \<open>const y: FooBar = 1;\<close>, where \<open>Foo\<close> occurs
  only inside the identifier \<open>FooBar\<close>, it retains \<open>import { Foo } from 'x';\<close>, while
  \<open>filterUsedTypes\<close> drops \<open>Foo\<close> and keeps \<open>FooBar\<close>.
\<close>

theorem substring_retains_import:
  "getRequiredImports ''const y: FooBar = 1;'' [''import { Foo } from 'x';'']
     = [''import { Foo } from 'x';''] \<and>
   filterUsedTypes [''Foo''] ''const y: FooBar = 1;'' = [] \<and>
   filterUsedTypes [''FooBar''] ''const y: FooBar = 1;'' = [''FooBar'']"
  by code_simp

subsection \<open>Verification\<close>

lemma check_exists_None: "check_exists fs w = None \<longleftrightarrow> (\<forall>f \<in> set fs. pathExists f w)"
  by (induction fs) auto

lemma check_exists_Some:
  "check_exists fs w = Some v \<Longrightarrow>
     \<not> success v \<and>
     (\<exists>f \<in> set fs. \<not> pathExists f w \<and> error v = Some (''Created file does not exist: '' @ f))"
  by (induction fs) (auto split: if_splits)

lemma readFile_cases:
  assumes "pathExists f w"
  shows "(\<exists>d. files w f = Some d \<and> \<not> read_denied w f \<and> readFile f w = (Inr d, w)) \<or>
         (\<exists>e. read_denied w f \<and> readFile f w = (Inl e, w))"
  using assms by (auto simp: pathExists_def readFile_def split: if_splits)

text \<open>The second loop: it passes every file, or stops at an empty file, or throws at a
  file that cannot be read.\<close>

lemma check_content_cases:
  assumes "\<forall>f \<in> set fs. pathExists f w"
  shows "(check_content fs w = Inr None \<and>
            (\<forall>f \<in> set fs. \<not> read_denied w f \<and> (\<exists>d. files w f = Some d \<and> trim d \<noteq> []))) \<or>
         (\<exists>v f d. check_content fs w = Inr (Some v) \<and> \<not> success v \<and> f \<in> set fs \<and>
            files w f = Some d \<and> \<not> read_denied w f \<and> trim d = [] \<and>
            error v = Some (''Created file is empty: '' @ f)) \<or>
         (\<exists>e f. check_content fs w = Inl e \<and> f \<in> set fs \<and> read_denied w f \<and>
            readFile f w = (Inl e, w))"
  using assms
proof (induction fs)
  case Nil
  then show ?case by simp
next
  case (Cons a fs)
  from Cons.prems have "pathExists a w" by simp
  from readFile_cases [OF this] show ?case
  proof (elim disjE exE conjE)
    fix e
    assume "read_denied w a" "readFile a w = (Inl e, w)"
    then show ?thesis by auto
  next
    fix d
    assume d: "files w a = Some d" "\<not> read_denied w a" "readFile a w = (Inr d, w)"
    show ?thesis
    proof (cases "trim d = []")
      case True
      with d show ?thesis by auto
    next
      case False
      from Cons.prems have "\<forall>f \<in> set fs. pathExists f w" by simp
      from Cons.IH [OF this] show ?thesis
      proof (elim disjE exE conjE)
        assume "check_content fs w = Inr None"
          "\<forall>f \<in> set fs. \<not> read_denied w f \<and> (\<exists>d. files w f = Some d \<and> trim d \<noteq> [])"
        with d False show ?thesis by simp
      next
        fix v f d'
        assume "check_content fs w = Inr (Some v)" "\<not> success v" "f \<in> set fs"
          "files w f = Some d'" "\<not> read_denied w f" "trim d' = []"
          "error v = Some (''Created file is empty: '' @ f)"
        with d False have "check_content (a # fs) w = Inr (Some v) \<and> \<not> success v \<and>
            f \<in> set (a # fs) \<and> files w f = Some d' \<and> \<not> read_denied w f \<and> trim d' = [] \<and>
            error v = Some (''Created file is empty: '' @ f)"
          by simp
        then show ?thesis by blast
      next
        fix e f
        assume "check_content fs w = Inl e" "f \<in> set fs" "read_denied w f"
          "readFile f w = (Inl e, w)"
        with d False have "check_content (a # fs) w = Inl e \<and> f \<in> set (a # fs) \<and>
            read_denied w f \<and> readFile f w = (Inl e, w)"
          by simp
        then show ?thesis by blast
      qed
    qed
  qed
qed

text \<open>The third loop, on files that the second loop has read.\<close>

lemma check_braces_cases:
  assumes "\<forall>f \<in> set fs. \<not> read_denied w f \<and> (\<exists>d. files w f = Some d)"
  shows "(check_braces fs w = Inr None \<and>
            (\<forall>f \<in> set fs. \<exists>d. files w f = Some d \<and>
               count_char CHR ''{'' d = count_char CHR ''}'' d)) \<or>
         (\<exists>v f d. check_braces fs w = Inr (Some v) \<and> \<not> success v \<and> f \<in> set fs \<and>
            files w f = Some d \<and> count_char CHR ''{'' d \<noteq> count_char CHR ''}'' d \<and>
            error v = Some (''Syntax error in file: '' @ f @ '' - unbalanced braces''))"
  using assms
proof (induction fs)
  case Nil
  then show ?case by simp
next
  case (Cons a fs)
  from Cons.prems obtain d where d: "files w a = Some d" "\<not> read_denied w a" by auto
  show ?case
  proof (cases "count_char CHR ''{'' d = count_char CHR ''}'' d")
    case False
    with d show ?thesis by (auto simp: readFile_def)
  next
    case True
    from Cons.prems have "\<forall>f \<in> set fs. \<not> read_denied w f \<and> (\<exists>d. files w f = Some d)" by simp
    from Cons.IH [OF this] d True show ?thesis
      by (auto simp: readFile_def)
  qed
qed

text \<open>
  Claim C4 (as amended): \<open>verifyRefactoring\<close> returns \<open>success = true\<close> if and only if
  every file of \<open>newFiles\<close> exists, can be read, has content that is not empty after
  trimming, and contains as many opening as closing braces.  When it returns
  \<open>success = false\<close>, either the diagnostic names a file of \<open>newFiles\<close> that fails one of
  the three checks, and the check it fails, or a file of \<open>newFiles\<close> exists and cannot be
  read, and the diagnostic is \<open>Verification failed: \<close> followed by the error that reading
  this file throws.
\<close>

theorem verifyRefactoring_success_iff_readable:
  "(success (verifyRefactoring originalPath created w) \<longleftrightarrow>
      (\<forall>file \<in> set created.
         pathExists file w \<and> \<not> read_denied w file \<and>
         (\<exists>data. files w file = Some data \<and> trim data \<noteq> [] \<and>
            count_char CHR ''{'' data = count_char CHR ''}'' data))) \<and>
   (\<not> success (verifyRefactoring originalPath created w) \<longrightarrow>
      (\<exists>file \<in> set created.
         (\<not> pathExists file w \<and>
            error (verifyRefactoring originalPath created w)
              = Some (''Created file does not exist: '' @ file)) \<or>
         (\<exists>data. files w file = Some data \<and> \<not> read_denied w file \<and> trim data = [] \<and>
            error (verifyRefactoring originalPath created w)
              = Some (''Created file is empty: '' @ file)) \<or>
         (\<exists>data. files w file = Some data \<and> \<not> read_denied w file \<and>
            count_char CHR ''{'' data \<noteq> count_char CHR ''}'' data \<and>
            error (verifyRefactoring originalPath created w)
              = Some (''Syntax error in file: '' @ file @ '' - unbalanced braces'')) \<or>
         (\<exists>e. pathExists file w \<and> read_denied w file \<and> readFile file w = (Inl e, w) \<and>
            error (verifyRefactoring originalPath created w)
              = Some (''Verification failed: '' @ String_of e))))"
proof -
  define V where "V = verifyRefactoring originalPath created w"
  define ok where "ok x \<longleftrightarrow> pathExists x w \<and> \<not> read_denied w x \<and>
         (\<exists>data. files w x = Some data \<and> trim data \<noteq> [] \<and>
            count_char CHR ''{'' data = count_char CHR ''}'' data)" for x
  define d1 where "d1 x \<longleftrightarrow> \<not> pathExists x w \<and>
            error V = Some (''Created file does not exist: '' @ x)" for x
  define d2 where "d2 x \<longleftrightarrow> (\<exists>data. files w x = Some data \<and> \<not> read_denied w x \<and>
            trim data = [] \<and> error V = Some (''Created file is empty: '' @ x))" for x
  define d3 where "d3 x \<longleftrightarrow> (\<exists>data. files w x = Some data \<and> \<not> read_denied w x \<and>
            count_char CHR ''{'' data \<noteq> count_char CHR ''}'' data \<and>
            error V = Some (''Syntax error in file: '' @ x @ '' - unbalanced braces''))" for x
  define d4 where "d4 x \<longleftrightarrow> (\<exists>e. pathExists x w \<and> read_denied w x \<and>
            readFile x w = (Inl e, w) \<and>
            error V = Some (''Verification failed: '' @ String_of e))" for x
  have fails: "\<not> success V \<and> \<not> (\<forall>file \<in> set created. ok file) \<and>
                (\<exists>file \<in> set created. d1 file \<or> d2 file \<or> d3 file \<or> d4 file)"
    if "\<not> success V" and "f \<in> set created" and "\<not> ok f"
      and "d1 f \<or> d2 f \<or> d3 f \<or> d4 f" for f
    using that by auto
  have "(success V \<longleftrightarrow> (\<forall>file \<in> set created. ok file)) \<and>
        (\<not> success V \<longrightarrow> (\<exists>file \<in> set created. d1 file \<or> d2 file \<or> d3 file \<or> d4 file))"
  proof (cases "check_exists created w")
    case (Some v)
    have v: "V = v" by (simp add: V_def verifyRefactoring_def Some)
    from check_exists_Some [OF Some] obtain f where
      f: "f \<in> set created" "\<not> pathExists f w" "\<not> success v"
         "error v = Some (''Created file does not exist: '' @ f)"
      by auto
    have "\<not> success V" using f(3) v by simp
    moreover have "\<not> ok f" using f(2) by (simp add: ok_def)
    moreover have "d1 f" using f(2,4) v by (simp add: d1_def)
    ultimately show ?thesis using fails [of f] f(1) by simp
  next
    case None
    then have ex: "\<forall>f \<in> set created. pathExists f w" by (simp add: check_exists_None)
    from check_content_cases [OF ex] show ?thesis
    proof (elim disjE conjE exE)
      fix e f
      assume a: "check_content created w = Inl e" "f \<in> set created" "read_denied w f"
        "readFile f w = (Inl e, w)"
      have v: "V = verification_caught e" by (simp add: V_def verifyRefactoring_def None a(1))
      have "\<not> success V" using v by (simp add: verification_caught_def)
      moreover have "\<not> ok f" using a(3) by (simp add: ok_def)
      moreover have "d4 f" using a(2,3,4) ex v by (auto simp: d4_def verification_caught_def)
      ultimately show ?thesis using fails [of f] a(2) by simp
    next
      fix v f d
      assume a: "check_content created w = Inr (Some v)" "\<not> success v" "f \<in> set created"
        "files w f = Some d" "\<not> read_denied w f" "trim d = []"
        "error v = Some (''Created file is empty: '' @ f)"
      have v: "V = v" by (simp add: V_def verifyRefactoring_def None a(1))
      have "\<not> success V" using a(2) v by simp
      moreover have "\<not> ok f" using a(4,6) by (simp add: ok_def)
      moreover have "d2 f" using a(4,5,6,7) v by (simp add: d2_def)
      ultimately show ?thesis using fails [of f] a(3) by simp
    next
      assume c: "check_content created w = Inr None"
        and nonempty: "\<forall>f \<in> set created. \<not> read_denied w f \<and>
                 (\<exists>d. files w f = Some d \<and> trim d \<noteq> [])"
      then have readable: "\<forall>f \<in> set created. \<not> read_denied w f \<and> (\<exists>d. files w f = Some d)"
        by blast
      from check_braces_cases [OF readable] show ?thesis
      proof (elim disjE conjE exE)
        fix v f d
        assume a: "check_braces created w = Inr (Some v)" "\<not> success v" "f \<in> set created"
          "files w f = Some d" "count_char CHR ''{'' d \<noteq> count_char CHR ''}'' d"
          "error v = Some (''Syntax error in file: '' @ f @ '' - unbalanced braces'')"
        have v: "V = v" by (simp add: V_def verifyRefactoring_def None c a(1))
        have r: "\<not> read_denied w f" using readable a(3) by blast
        have "\<not> success V" using a(2) v by simp
        moreover have "\<not> ok f" using a(4,5) by (simp add: ok_def)
        moreover have "d3 f" using a(4,5,6) r v by (simp add: d3_def)
        ultimately show ?thesis using fails [of f] a(3) by simp
      next
        assume b: "check_braces created w = Inr None"
          and balanced: "\<forall>f \<in> set created. \<exists>d. files w f = Some d \<and>
                 count_char CHR ''{'' d = count_char CHR ''}'' d"
        have v: "V = \<lparr>success = True, error = None\<rparr>"
          by (simp add: V_def verifyRefactoring_def None c b)
        have "ok f" if "f \<in> set created" for f
          using ex nonempty balanced that unfolding ok_def by fastforce
        then show ?thesis unfolding v by simp
      qed
    qed
  qed
  then show ?thesis unfolding V_def ok_def d1_def d2_def d3_def d4_def .
qed

text \<open>The theorem at two created files: verification succeeds on the first alone, and
  fails on both when the second cannot be read.\<close>

theorem verifyRefactoring_readable_witness:
  "\<not> success (verifyRefactoring ''/p/a.ts'' [''/p/a-part1.ts'', ''/p/a-part2.ts'']
       (empty_world\<lparr>files := (\<lambda>p. None)(''/p/a-part1.ts'' \<mapsto> ''f() { }'',
                                          ''/p/a-part2.ts'' \<mapsto> ''g() { }''),
                    read_denied := (\<lambda>p. p = ''/p/a-part2.ts'')\<rparr>)) \<and>
   success (verifyRefactoring ''/p/a.ts'' [''/p/a-part1.ts'']
       (empty_world\<lparr>files := (\<lambda>p. None)(''/p/a-part1.ts'' \<mapsto> ''f() { }'',
                                          ''/p/a-part2.ts'' \<mapsto> ''g() { }''),
                    read_denied := (\<lambda>p. p = ''/p/a-part2.ts'')\<rparr>))"
proof -
  let ?w = "empty_world\<lparr>files := (\<lambda>p. None)(''/p/a-part1.ts'' \<mapsto> ''f() { }'',
                                          ''/p/a-part2.ts'' \<mapsto> ''g() { }''),
                        read_denied := (\<lambda>p. p = ''/p/a-part2.ts'')\<rparr>"
  have bad: "\<not> (\<forall>file \<in> set [''/p/a-part1.ts'', ''/p/a-part2.ts''].
         pathExists file ?w \<and> \<not> read_denied ?w file \<and>
         (\<exists>data. files ?w file = Some data \<and> trim data \<noteq> [] \<and>
            count_char CHR ''{'' data = count_char CHR ''}'' data))"
    by simp
  have good: "\<forall>file \<in> set [''/p/a-part1.ts''].
         pathExists file ?w \<and> \<not> read_denied ?w file \<and>
         (\<exists>data. files ?w file = Some data \<and> trim data \<noteq> [] \<and>
            count_char CHR ''{'' data = count_char CHR ''}'' data)"
    by (simp add: count_char_def pathExists_def trim_def is_space_def)
  from verifyRefactoring_success_iff_readable
         [of "''/p/a.ts''" "[''/p/a-part1.ts'', ''/p/a-part2.ts'']" ?w]
    verifyRefactoring_success_iff_readable [of "''/p/a.ts''" "[''/p/a-part1.ts'']" ?w] bad good
  show ?thesis by blast
qed

text \<open>
  Claim C4 as stated (success if and only if every file exists, is not empty after
  trimming and has balanced braces) fails: a created file that exists, is not empty after
  trimming and has balanced braces, but cannot be read, makes the verification fail, and
  the diagnostic is that of the \<open>catch\<close> block, which is none of the three checks.
\<close>

theorem unreadable_file_fails_verification:
  "pathExists ''/p/a-part1.ts''
     (empty_world\<lparr>files := (\<lambda>p. None)(''/p/a-part1.ts'' \<mapsto> ''f() { }''),
                  read_denied := (\<lambda>p. p = ''/p/a-part1.ts'')\<rparr>) \<and>
   files (empty_world\<lparr>files := (\<lambda>p. None)(''/p/a-part1.ts'' \<mapsto> ''f() { }''),
                      read_denied := (\<lambda>p. p = ''/p/a-part1.ts'')\<rparr>) ''/p/a-part1.ts''
     = Some ''f() { }'' \<and>
   trim ''f() { }'' = ''f() { }'' \<and>
   count_char CHR ''{'' ''f() { }'' = 1 \<and> count_char CHR ''}'' ''f() { }'' = 1 \<and>
   verifyRefactoring ''/p/a.ts'' [''/p/a-part1.ts'']
     (empty_world\<lparr>files := (\<lambda>p. None)(''/p/a-part1.ts'' \<mapsto> ''f() { }''),
                  read_denied := (\<lambda>p. p = ''/p/a-part1.ts'')\<rparr>)
     = \<lparr>success = False,
        error = Some (''Verification failed: Error: EACCES: permission denied, open ''
                      @ quoted ''/p/a-part1.ts'')\<rparr>"
  by code_simp

subsection \<open>Names of the created files and of the backup\<close>

lemma digit_char_neq: "digit_char d \<noteq> CHR ''Z''" "digit_char d \<noteq> CHR ''p''"
proof -
  have "d mod 10 < length ''0123456789''" by simp
  then have "digit_char d \<in> set ''0123456789''"
    unfolding digit_char_def by (rule nth_mem)
  then show "digit_char d \<noteq> CHR ''Z''" "digit_char d \<noteq> CHR ''p''" by auto
qed

lemma show_nat_last: "show_nat n \<noteq> [] \<and> last (show_nat n) = digit_char n"
  by (subst (1 2) show_nat.simps) simp

lemma extname_shape:
  "extname p = [] \<or> (\<exists>e. extname p = CHR ''.'' # e \<and> CHR ''.'' \<notin> set e)"
proof -
  have "CHR ''.'' \<notin> set (rev (takeWhile (\<lambda>c. c \<noteq> CHR ''.'') (rev (basename p))))"
    by (auto dest: set_takeWhileD)
  then show ?thesis by (auto simp: extname_def Let_def)
qed

lemma first_occurrence_unique:
  "a \<notin> set p \<Longrightarrow> a \<notin> set q \<Longrightarrow> p @ a # r = q @ a # r' \<Longrightarrow> p = q \<and> r = r'"
proof (induction p arbitrary: q)
  case Nil
  then show ?case by (cases q) auto
next
  case (Cons x p)
  then show ?case by (cases q) auto
qed

lemma last_dot_unique:
  assumes "xs @ CHR ''.'' # e = ys @ CHR ''.'' # e'"
    and "CHR ''.'' \<notin> set e" and "CHR ''.'' \<notin> set e'"
  shows "xs = ys \<and> e = e'"
proof -
  from assms(1) have "rev (xs @ CHR ''.'' # e) = rev (ys @ CHR ''.'' # e')" by simp
  then have "rev e @ CHR ''.'' # rev xs = rev e' @ CHR ''.'' # rev ys" by simp
  moreover have "CHR ''.'' \<notin> set (rev e)" "CHR ''.'' \<notin> set (rev e')" using assms(2,3) by simp_all
  ultimately have "rev e = rev e' \<and> rev xs = rev ys"
    by (intro first_occurrence_unique [of "CHR ''.''"])
  then show ?thesis by simp
qed

text \<open>A name that ends in a stem and an extension is not the name of a backup, which ends
  in \<open>Z.backup\<close>, unless the stem ends in \<open>Z\<close> or in \<open>p\<close>.\<close>

lemma created_name_not_backup:
  assumes ext: "ext = [] \<or> (\<exists>e. ext = CHR ''.'' # e \<and> CHR ''.'' \<notin> set e)"
    and stem: "stem \<noteq> []" "last stem \<noteq> CHR ''Z''" "last stem \<noteq> CHR ''p''"
  shows "y @ stem @ ext \<noteq> v @ ''Z.backup''"
proof
  assume eq: "y @ stem @ ext = v @ ''Z.backup''"
  from ext show False
  proof
    assume "ext = []"
    with eq have "last (y @ stem) = last (v @ ''Z.backup'')" by simp
    with stem show False by simp
  next
    assume "\<exists>e. ext = CHR ''.'' # e \<and> CHR ''.'' \<notin> set e"
    then obtain e where e: "ext = CHR ''.'' # e" "CHR ''.'' \<notin> set e" by blast
    from eq e(1) have "(y @ stem) @ CHR ''.'' # e = (v @ ''Z'') @ CHR ''.'' # ''backup''" by simp
    from last_dot_unique [OF this e(2)] have "y @ stem = v @ ''Z''" by simp
    then have "last (y @ stem) = last (v @ ''Z'')" by simp
    with stem show False by simp
  qed
qed

lemma path_join_append: "\<exists>y. \<forall>name. path_join dir name = y @ name"
  by (cases "dir = ''/''") (auto simp: path_join_def)

lemma timestamp_of_ends: "\<exists>t. timestamp_of d = t @ ''Z''"
  by (simp add: timestamp_of_def toISOString_def)

lemma backupPath_shape: "\<exists>v. backupPath_of this filePath d = v @ ''Z.backup''"
proof -
  obtain t where t: "timestamp_of d = t @ ''Z''" using timestamp_of_ends by blast
  obtain y where y: "\<And>name. path_join (path_join (projectRoot this) ''.refactor-backups'') name = y @ name"
    using path_join_append by blast
  have "backupPath_of this filePath d = (y @ basename filePath @ ''-'' @ t) @ ''Z.backup''"
    by (simp add: backupPath_of_def y t)
  then show ?thesis by blast
qed

lemma created_path_not_backup:
  assumes "ext = [] \<or> (\<exists>e. ext = CHR ''.'' # e \<and> CHR ''.'' \<notin> set e)"
    and "stem \<noteq> []" "last stem \<noteq> CHR ''Z''" "last stem \<noteq> CHR ''p''"
  shows "path_join dir (b @ stem @ ext) \<noteq> backupPath_of this filePath d"
proof -
  obtain v where v: "backupPath_of this filePath d = v @ ''Z.backup''"
    using backupPath_shape by blast
  obtain y where y: "\<And>name. path_join dir name = y @ name" using path_join_append by blast
  have "(y @ b) @ stem @ ext \<noteq> v @ ''Z.backup''"
    by (rule created_name_not_backup [OF assms])
  then show ?thesis by (simp add: y v)
qed

lemma ts_extension: "''.ts'' = [] \<or> (\<exists>e. ''.ts'' = CHR ''.'' # e \<and> CHR ''.'' \<notin> set e)"
  by simp

subsection \<open>What the writing methods change\<close>

text \<open>Two worlds with the same storage faults, directories and clock.\<close>

definition same_env :: "world \<Rightarrow> world \<Rightarrow> bool" where
  "same_env w w' \<longleftrightarrow>
     dir_exists w' = dir_exists w \<and> read_denied w' = read_denied w \<and>
     write_denied w' = write_denied w \<and> remove_denied w' = remove_denied w \<and>
     clock w' = clock w \<and> ticks w' = ticks w"

text \<open>The invariant of a writing method started in world \<open>w0\<close> on the file \<open>orig\<close>: only the
  files listed in \<open>newFiles\<close> and \<open>orig\<close> differ from \<open>w0\<close>, and the path \<open>bp\<close> is not
  listed.\<close>

definition frame :: "world \<Rightarrow> string \<Rightarrow> string \<Rightarrow> world \<times> string list \<Rightarrow> bool" where
  "frame w0 orig bp s \<longleftrightarrow>
     (\<forall>p. p \<notin> set (snd s) \<longrightarrow> p \<noteq> orig \<longrightarrow> files (fst s) p = files w0 p) \<and>
     bp \<notin> set (snd s) \<and> same_env w0 (fst s)"

definition preserves :: "(world \<times> string list \<Rightarrow> bool) \<Rightarrow> writer \<Rightarrow> bool" where
  "preserves I m \<longleftrightarrow> (\<forall>s r s'. I s \<longrightarrow> m s = (r, s') \<longrightarrow> I s')"

lemma frame_start: "frame w orig bp (w, [])"
  by (simp add: frame_def same_env_def)

lemma preserves_push_write:
  "file \<noteq> bp \<Longrightarrow> preserves (frame w0 orig bp) (\<lambda>s. push_write file (g s) s)"
  by (auto simp: preserves_def frame_def same_env_def push_write_def writeFile_def
      split: if_splits)

lemma preserves_write_only:
  "preserves (frame w0 orig bp) (\<lambda>s. write_only orig (g s) s)"
  by (auto simp: preserves_def frame_def same_env_def write_only_def writeFile_def
      split: if_splits)

lemma preserves_only_if: "preserves I m \<Longrightarrow> preserves I (only_if b m)"
  by (auto simp: preserves_def only_if_def split: if_splits)

lemma preserves_run_all: "list_all (preserves I) ms \<Longrightarrow> preserves I (run_all ms)"
proof (induction ms)
  case Nil
  then show ?case by (simp add: preserves_def)
next
  case (Cons m ms)
  then have m: "preserves I m" and ms: "preserves I (run_all ms)" by simp_all
  show ?case
    unfolding preserves_def
  proof (intro allI impI)
    fix s r s'
    assume I: "I s" and run: "run_all (m # ms) s = (r, s')"
    obtain r1 s1 where ms1: "m s = (r1, s1)" by (cases "m s")
    with m I have I1: "I s1" unfolding preserves_def by blast
    show "I s'"
    proof (cases r1)
      case (Inl e)
      with run ms1 I1 show ?thesis by simp
    next
      case (Inr u)
      with run ms1 have "run_all ms s1 = (r, s')" by simp
      with ms I1 show ?thesis unfolding preserves_def by blast
    qed
  qed
qed

lemma preservesD: "preserves I m \<Longrightarrow> I s \<Longrightarrow> I (snd (m s))"
  unfolding preserves_def by (metis prod.collapse)

lemma preserves_queries_step:
  "path_join dir (baseName @ suffix) \<noteq> bp \<Longrightarrow>
     preserves (frame w0 orig bp) (queries_step h text dir baseName queries suffix exportName)"
  unfolding queries_step_def by (intro preserves_only_if preserves_push_write)

lemma preserves_types_step:
  "path_join dir name \<noteq> bp \<Longrightarrow>
     preserves (frame w0 orig bp) (types_step h dir commonTypes typeDefs name)"
  unfolding types_step_def by (intro preserves_only_if preserves_push_write)

lemma preserves_chunk_steps:
  assumes "\<And>n. path_join dir (baseName @ ''-part'' @ show_nat n @ extension) \<noteq> bp"
  shows "list_all (preserves (frame w0 orig bp)) (chunk_steps dir baseName extension chunks)"
  unfolding chunk_steps_def list_all_iff
proof
  fix m
  assume "m \<in> set (map (\<lambda>(i, chunk). push_write
              (path_join dir (baseName @ ''-part'' @ show_nat (i + 1) @ extension)) chunk)
            (enumerate 0 chunks))"
  then obtain i chunk where
    m: "m = push_write (path_join dir (baseName @ ''-part'' @ show_nat (i + 1) @ extension)) chunk"
    by auto
  show "preserves (frame w0 orig bp) m"
    unfolding m by (rule preserves_push_write [OF assms])
qed

lemma returning_newFiles_frame:
  "frame w0 orig bp (snd r) \<Longrightarrow> returning_newFiles r = (Inr created, w') \<Longrightarrow>
     frame w0 orig bp (w', created)"
  by (cases r) (auto simp: returning_newFiles_def split: sum.splits)

text \<open>The stems of the generated names end neither in \<open>Z\<close> nor in \<open>p\<close>.\<close>

lemma part_stem:
  "''-part'' @ show_nat n \<noteq> [] \<and> last (''-part'' @ show_nat n) \<noteq> CHR ''Z'' \<and>
   last (''-part'' @ show_nat n) \<noteq> CHR ''p''"
  using show_nat_last [of n] digit_char_neq [of n] by simp

lemma part_path_not_backup:
  "path_join dir (baseName @ ''-part'' @ show_nat n @ extname filePath)
     \<noteq> backupPath_of this f d"
proof -
  have "path_join dir (baseName @ (''-part'' @ show_nat n) @ extname filePath)
          \<noteq> backupPath_of this f d"
    using part_stem [of n] by (intro created_path_not_backup [OF extname_shape]) simp_all
  then show ?thesis by simp
qed

lemma stem_path_not_backup:
  assumes "stem \<noteq> []" "last stem \<noteq> CHR ''Z''" "last stem \<noteq> CHR ''p''"
  shows "path_join dir (baseName @ stem @ extname filePath) \<noteq> backupPath_of this f d"
  by (rule created_path_not_backup [OF extname_shape assms])

lemma backupPath_last: "backupPath_of this f d \<noteq> [] \<and> last (backupPath_of this f d) = CHR ''p''"
proof -
  obtain v where "backupPath_of this f d = v @ ''Z.backup''" using backupPath_shape by blast
  then show ?thesis by simp
qed

lemma name_path_not_backup:
  assumes "name \<noteq> []" and "last name \<noteq> CHR ''p''"
  shows "path_join dir name \<noteq> backupPath_of this f d"
proof -
  have "last (path_join dir name) = last name"
    using assms(1) by (simp add: path_join_def)
  with assms(2) backupPath_last [of this f d] show ?thesis by metis
qed

lemma run_from_start:
  "preserves (frame w orig bp) m \<Longrightarrow> frame w orig bp (snd (m (w, [])))"
  by (rule preservesD [of "frame w orig bp" m "(w, [])", OF _ frame_start])

lemma refactorGraphQLFile_frame:
  assumes "refactorGraphQLFile h filePath text w = (Inr created, w')"
  shows "frame w filePath (backupPath_of this f d) (w', created)"
  apply (rule returning_newFiles_frame [OF _ assms [unfolded refactorGraphQLFile_def Let_def]])
  apply (rule run_from_start)
  apply (rule preserves_run_all)
  apply (simp only: list_all_Nil_iff list_all_Cons_iff)
  apply (intro conjI TrueI preserves_queries_step preserves_only_if preserves_push_write
      preserves_write_only name_path_not_backup)
                 apply simp_all
  done

lemma refactorTypesFile_frame:
  assumes "refactorTypesFile h filePath text w = (Inr created, w')"
  shows "frame w filePath (backupPath_of this f d) (w', created)"
  apply (rule returning_newFiles_frame [OF _ assms [unfolded refactorTypesFile_def Let_def]])
  apply (rule run_from_start)
  apply (rule preserves_run_all)
  apply (simp only: list_all_Nil_iff list_all_Cons_iff)
  apply (intro conjI TrueI preserves_types_step preserves_only_if preserves_push_write
      name_path_not_backup)
               apply simp_all
  done

lemma index_path_not_backup:
  "path_join dir (baseName @ ''-index'' @ extname filePath) \<noteq> backupPath_of this f d"
  by (rule stem_path_not_backup) simp_all

lemma main_path_not_backup:
  "path_join dir (baseName @ ''-main'' @ extname filePath) \<noteq> backupPath_of this f d"
  by (rule stem_path_not_backup) simp_all

lemma components_path_not_backup:
  "path_join dir (baseName @ ''-components'' @ extname filePath) \<noteq> backupPath_of this f d"
  by (rule stem_path_not_backup) simp_all

lemma refactorReactComponent_frame:
  assumes "refactorReactComponent this h filePath text w = (Inr created, w')"
  shows "frame w filePath (backupPath_of this f d) (w', created)"
proof -
  let ?I = "frame w filePath (backupPath_of this f d)"
  let ?dir = "dirname filePath" and ?ext = "extname filePath"
  let ?base = "basename_ext filePath (extname filePath)"
  let ?sections = "extractReactComponentSections h text" and ?imps = "extractImportsSection h text"
  let ?steps = "[only_if (types ?sections \<noteq> [])
             (push_write (path_join ?dir (?base @ ''-types.ts''))
                (createTypesFile h
                   (filter (\<lambda>imp. str_includes imp ''type'' \<or> str_includes imp ''interface'' \<or>
                                  str_includes imp ''React'') ?imps)
                   (types ?sections))),
           only_if (utilities ?sections \<noteq> [])
             (push_write (path_join ?dir (?base @ ''-utils.ts''))
                (createUtilsFile h
                   (filter (\<lambda>imp. \<not> str_includes imp ''React'' \<and> \<not> str_includes imp ''./'' \<and>
                                  \<not> str_includes imp ''@/'') ?imps)
                   (utilities ?sections))),
           only_if (subComponents ?sections \<noteq> [])
             (push_write (path_join ?dir (?base @ ''-components'' @ ?ext))
                (createComponentsFile h ?imps (subComponents ?sections))),
           (\<lambda>s. push_write (path_join ?dir (?base @ ''-main'' @ ?ext))
                  (createMainComponentFile h ?imps (mainComponent ?sections)
                     (map (path_relative h ?dir) (snd s))) s),
           (\<lambda>s. push_write (path_join ?dir (?base @ ''-index'' @ ?ext))
                  (createReactIndexFile h ?base (snd s)) s)]"
  have "list_all (preserves ?I) ?steps"
    apply (simp only: list_all_Nil_iff list_all_Cons_iff)
    apply (intro conjI TrueI preserves_only_if preserves_push_write
        index_path_not_backup main_path_not_backup components_path_not_backup)
     apply (rule name_path_not_backup; simp)+
    done
  then have tried: "?I (snd (run_all ?steps (w, [])))"
    by (intro run_from_start preserves_run_all)
  obtain r s where rs: "run_all ?steps (w, []) = (r, s)" by (cases "run_all ?steps (w, [])")
  with tried have Is: "?I s" by (simp del: run_all.simps)
  have unf: "refactorReactComponent this h filePath text w =
      (case run_all ?steps (w, []) of
         (Inr _, s) \<Rightarrow> (Inr (snd s), fst s)
       | (Inl e, s) \<Rightarrow>
           returning_newFiles
             (run_all (chunk_steps ?dir ?base ?ext
                         (splitContentIntoChunks text (maxLines (config this)))) s))"
    unfolding refactorReactComponent_def Let_def by (rule refl)
  from assms have res: "(case (r, s) of
         (Inr _, s) \<Rightarrow> (Inr (snd s), fst s)
       | (Inl e, s) \<Rightarrow>
           returning_newFiles
             (run_all (chunk_steps ?dir ?base ?ext
                         (splitContentIntoChunks text (maxLines (config this)))) s))
       = (Inr created, w')"
    unfolding unf rs .
  show ?thesis
  proof (cases r)
    case (Inr u)
    with res Is show ?thesis by (cases s) simp
  next
    case (Inl e)
    let ?fallback = "run_all (chunk_steps ?dir ?base ?ext
                        (splitContentIntoChunks text (maxLines (config this)))) s"
    from Inl res have ret: "returning_newFiles ?fallback = (Inr created, w')"
      by simp
    have "?I (snd ?fallback)"
      by (rule preservesD [of ?I _ s, OF _ Is])
         (intro preserves_run_all preserves_chunk_steps part_path_not_backup)
    from returning_newFiles_frame [OF this ret] show ?thesis .
  qed
qed

lemma refactorGenericFile_frame:
  assumes "refactorGenericFile this h filePath text w = (Inr created, w')"
  shows "frame w filePath (backupPath_of this f d) (w', created)"
proof (cases "extname filePath = ''.tsx'' \<or> extname filePath = ''.jsx''")
  case True
  with assms have "refactorReactComponent this h filePath text w = (Inr created, w')"
    by (simp add: refactorGenericFile_def Let_def)
  then show ?thesis by (rule refactorReactComponent_frame)
next
  case False
  let ?I = "frame w filePath (backupPath_of this f d)"
  let ?dir = "dirname filePath" and ?ext = "extname filePath"
  let ?base = "basename_ext filePath (extname filePath)"
  let ?steps = "chunk_steps ?dir ?base ?ext (splitContentIntoChunks text (maxLines (config this)))
                 @ [\<lambda>s. push_write (path_join ?dir (?base @ ''-index'' @ ?ext))
                          (createGenericIndexFile ?base (snd s)) s]"
  from False assms have ret: "returning_newFiles (run_all ?steps (w, [])) = (Inr created, w')"
    by (simp add: refactorGenericFile_def Let_def)
  have "list_all (preserves ?I) ?steps"
    apply (simp only: list_all_append list_all_Nil_iff list_all_Cons_iff)
    apply (intro conjI TrueI preserves_chunk_steps preserves_push_write part_path_not_backup
        index_path_not_backup)
    done
  then have "?I (snd (run_all ?steps (w, [])))"
    by (intro run_from_start preserves_run_all)
  from returning_newFiles_frame [OF this ret] show ?thesis .
qed

lemma write_new_files_frame:
  assumes "write_new_files this h filePath text w = (Inr created, w')"
  shows "frame w filePath (backupPath_of this f d) (w', created)"
  using assms refactorGraphQLFile_frame refactorTypesFile_frame refactorGenericFile_frame
  unfolding write_new_files_def by (auto split: if_splits)

subsection \<open>Rollback after a failed verification\<close>

lemma remove_created_ok:
  assumes "\<forall>f \<in> set fs. \<not> remove_denied w f"
  shows "\<exists>w'. remove_created fs w = (Inr (), w') \<and>
           files w' = (\<lambda>p. if p \<in> set fs then None else files w p) \<and> same_env w w'"
  using assms
proof (induction fs arbitrary: w)
  case Nil
  then show ?case by (simp add: same_env_def)
next
  case (Cons f fs)
  show ?case
  proof (cases "pathExists f w")
    case False
    from Cons.prems have "\<forall>f \<in> set fs. \<not> remove_denied w f" by simp
    from Cons.IH [OF this] obtain w' where
      w': "remove_created fs w = (Inr (), w')"
          "files w' = (\<lambda>p. if p \<in> set fs then None else files w p)" "same_env w w'"
      by blast
    from False have "files w f = None" by (simp add: pathExists_def)
    with w' False show ?thesis by (auto simp: fun_eq_iff)
  next
    case True
    let ?w1 = "w\<lparr>files := (files w)(f := None)\<rparr>"
    from Cons.prems have rm: "remove f w = (Inr (), ?w1)" by (simp add: remove_def)
    from Cons.prems have "\<forall>f \<in> set fs. \<not> remove_denied ?w1 f" by simp
    from Cons.IH [OF this] obtain w' where
      w': "remove_created fs ?w1 = (Inr (), w')"
          "files w' = (\<lambda>p. if p \<in> set fs then None else files ?w1 p)" "same_env ?w1 w'"
      by blast
    from w'(3) have "same_env w w'" by (simp add: same_env_def)
    with w' True rm show ?thesis by (auto simp: fun_eq_iff)
  qed
qed

lemma createBackup_Inr:
  assumes "createBackup this filePath w = (Inr backupPath, w1)"
  shows "\<exists>d data. backupPath = backupPath_of this filePath d \<and> files w filePath = Some data \<and>
           filePath \<noteq> backupPath \<and> files w1 = (files w)(backupPath \<mapsto> data) \<and>
           \<not> read_denied w1 backupPath \<and>
           write_denied w1 = write_denied w \<and> remove_denied w1 = remove_denied w"
  using assms
  by (auto simp: createBackup_def ensureDir_def new_Date_def copy_def
      split: if_splits option.splits)

text \<open>
  Claim C1: when \<open>verifyRefactoring\<close> reports failure on the created files, the transaction
  of \<open>performRefactoring\<close> ends rolled back: every created file is deleted, the backup is
  not deleted, the original file has the content it had when the backup was taken, and
  the result has \<open>success = false\<close> and the diagnostic of the verification as its error.

  The premises describe such a transaction: the backup was made, the writing method
  returned the list \<open>created\<close>, and verification of that list fails.  The rollback itself
  must not fail (the storage refuses neither the removal of a created file nor the write
  of the original file); the case that it does is the subject of Claim C2.  Beyond the
  claim, no path that was free before the transaction holds a file afterwards, except the
  backup.
\<close>

theorem verification_failure_rolls_back:
  assumes backup: "createBackup this filePath w = (Inr backupPath, w1)"
    and written: "write_new_files this h filePath text w1 = (Inr created, w2)"
    and verif: "\<not> success (verifyRefactoring filePath created w2)"
    and removable: "\<forall>p \<in> set created. \<not> remove_denied w p"
    and restorable: "\<not> write_denied w filePath"
  shows "\<exists>wF. performRefactoring this h filePath text sugg w =
            (Inr \<lparr>success = False, error = error (verifyRefactoring filePath created w2),
                  originalFile = filePath, newFiles = [], linesReduced = 0, analysis = None\<rparr>,
             wF) \<and>
          (\<forall>p \<in> set created. p \<noteq> filePath \<longrightarrow> files wF p = None) \<and>
          files w filePath \<noteq> None \<and>
          files wF backupPath = files w filePath \<and>
          files wF filePath = files w filePath \<and>
          (\<forall>p. p \<noteq> backupPath \<longrightarrow> p \<noteq> filePath \<longrightarrow> files w p = None \<longrightarrow> files wF p = None)"
proof -
  from createBackup_Inr [OF backup] obtain d data where
    bp: "backupPath = backupPath_of this filePath d" and data: "files w filePath = Some data"
    and ne: "filePath \<noteq> backupPath" and f1: "files w1 = (files w)(backupPath \<mapsto> data)"
    and rd1: "\<not> read_denied w1 backupPath"
    and env1: "write_denied w1 = write_denied w" "remove_denied w1 = remove_denied w"
    by blast
  from write_new_files_frame [OF written, where f = filePath and d = d]
  have fr: "frame w1 filePath backupPath (w2, created)" by (simp add: bp)
  then have f2: "\<And>p. p \<notin> set created \<Longrightarrow> p \<noteq> filePath \<Longrightarrow> files w2 p = files w1 p"
    and nb: "backupPath \<notin> set created" and env2: "same_env w1 w2"
    by (simp_all add: frame_def)
  from removable env1 env2 have "\<forall>p \<in> set created. \<not> remove_denied w2 p"
    by (simp add: same_env_def)
  from remove_created_ok [OF this] obtain w3 where
    rm: "remove_created created w2 = (Inr (), w3)"
    and f3: "files w3 = (\<lambda>p. if p \<in> set created then None else files w2 p)"
    and env3: "same_env w2 w3"
    by blast
  have b3: "files w3 backupPath = Some data"
    using f3 nb f2 [OF nb] ne f1 by simp
  have wd3: "\<not> write_denied w3 filePath"
    using restorable env1 env2 env3 by (simp add: same_env_def)
  have rd3: "\<not> read_denied w3 backupPath"
    using rd1 env2 env3 by (simp add: same_env_def)
  let ?wF = "w3\<lparr>files := (files w3)(filePath \<mapsto> data),
                 read_denied := (read_denied w3)(filePath := False)\<rparr>"
  have cp: "copy backupPath filePath w3 = (Inr (), ?wF)"
    using b3 ne wd3 rd3 by (simp add: copy_def)
  have rb: "rollbackRefactoring filePath created backupPath w2 = (Inr (), ?wF)"
    using rm b3 cp by (simp add: rollbackRefactoring_def pathExists_def)
  have perf: "performRefactoring this h filePath text sugg w =
            (Inr \<lparr>success = False, error = error (verifyRefactoring filePath created w2),
                  originalFile = filePath, newFiles = [], linesReduced = 0, analysis = None\<rparr>,
             ?wF)"
    using backup written verif rb by (simp add: performRefactoring_def Let_def)
  have c1: "\<forall>p \<in> set created. p \<noteq> filePath \<longrightarrow> files ?wF p = None"
    using f3 by simp
  have c2: "files ?wF backupPath = files w filePath"
    using b3 ne data by simp
  have c3: "files ?wF filePath = files w filePath"
    using data by simp
  have c4: "\<forall>p. p \<noteq> backupPath \<longrightarrow> p \<noteq> filePath \<longrightarrow> files w p = None \<longrightarrow> files ?wF p = None"
    using f3 f2 f1 by simp
  from perf c1 c2 c3 c4 data show ?thesis by blast
qed

text \<open>The theorem at the example project: the only chunk has an unclosed brace, the
  verification fails, and the two created files are removed again.\<close>

theorem verification_failure_witness:
  "fst (performRefactoring example_engine example_helpers ''/p/src/a.ts'' ''function f() {''
          (analyzeFile example_helpers ''/p/src/a.ts'' ''function f() {'') example_project)
     = Inr \<lparr>success = False,
            error = Some ''Syntax error in file: /p/src/a-part1.ts - unbalanced braces'',
            originalFile = ''/p/src/a.ts'', newFiles = [], linesReduced = 0, analysis = None\<rparr> \<and>
   files (snd (performRefactoring example_engine example_helpers ''/p/src/a.ts''
          ''function f() {'' (analyzeFile example_helpers ''/p/src/a.ts'' ''function f() {'')
          example_project)) ''/p/src/a-part1.ts'' = None \<and>
   files (snd (performRefactoring example_engine example_helpers ''/p/src/a.ts''
          ''function f() {'' (analyzeFile example_helpers ''/p/src/a.ts'' ''function f() {'')
          example_project)) ''/p/src/a-index.ts'' = None \<and>
   files (snd (performRefactoring example_engine example_helpers ''/p/src/a.ts''
          ''function f() {'' (analyzeFile example_helpers ''/p/src/a.ts'' ''function f() {'')
          example_project)) ''/p/.refactor-backups/a.ts-2025-07-08T12-30-15-250Z.backup''
     = Some ''function f() {'' \<and>
   files (snd (performRefactoring example_engine example_helpers ''/p/src/a.ts''
          ''function f() {'' (analyzeFile example_helpers ''/p/src/a.ts'' ''function f() {'')
          example_project)) ''/p/src/a.ts'' = Some ''function f() {''"
proof -
  let ?f = "''/p/src/a.ts''" and ?t = "''function f() {''"
  let ?bp = "''/p/.refactor-backups/a.ts-2025-07-08T12-30-15-250Z.backup''"
  let ?created = "[''/p/src/a-part1.ts'', ''/p/src/a-index.ts'']"
  let ?W1 = "example_project\<lparr>files := (files example_project)(?bp \<mapsto> ?t),
                              read_denied := (read_denied example_project)(?bp := False),
                              ticks := 1\<rparr>"
  let ?W2 = "snd (write_new_files example_engine example_helpers ?f ?t ?W1)"
  let ?sugg = "analyzeFile example_helpers ?f ?t"
  have ts: "timestamp_of (clock example_project 0) = ''2025-07-08T12-30-15-250Z''"
    by (simp add: example_project_def empty_world_def timestamp_of_def toISOString_def
        pad_nat_def show_nat.simps digit_char_def)
  have backup: "createBackup example_engine ?f example_project = (Inr ?bp, ?W1)"
    using ts
    by (simp add: createBackup_def ensureDir_def new_Date_def copy_def backupPath_of_def
        path_join_def basename_def example_engine_def example_project_def empty_world_def)
  have "fst (write_new_files example_engine example_helpers ?f ?t ?W1) = Inr ?created"
    by code_simp
  then have written: "write_new_files example_engine example_helpers ?f ?t ?W1 = (Inr ?created, ?W2)"
    by (simp add: prod_eq_iff)
  have verif: "\<not> success (verifyRefactoring ?f ?created ?W2)" by code_simp
  have diag: "error (verifyRefactoring ?f ?created ?W2)
                = Some ''Syntax error in file: /p/src/a-part1.ts - unbalanced braces''"
    by code_simp
  have removable: "\<forall>p \<in> set ?created. \<not> remove_denied example_project p"
    by (simp add: example_project_def empty_world_def)
  have restorable: "\<not> write_denied example_project ?f"
    by (simp add: example_project_def empty_world_def)
  have orig: "files example_project ?f = Some ?t"
    by (simp add: example_project_def)
  from verification_failure_rolls_back [OF backup written verif removable restorable, of ?sugg]
  obtain wF where
    p: "performRefactoring example_engine example_helpers ?f ?t ?sugg example_project =
          (Inr \<lparr>success = False, error = error (verifyRefactoring ?f ?created ?W2),
                originalFile = ?f, newFiles = [], linesReduced = 0, analysis = None\<rparr>, wF)"
    and c: "\<forall>p \<in> set ?created. p \<noteq> ?f \<longrightarrow> files wF p = None"
    and b: "files wF ?bp = files example_project ?f"
    and o: "files wF ?f = files example_project ?f"
    by blast
  from c have "files wF ''/p/src/a-part1.ts'' = None" "files wF ''/p/src/a-index.ts'' = None"
    by simp_all
  with p b o diag orig show ?thesis by simp
qed

subsection \<open>Scanning\<close>

text \<open>Counting the lines of a file leaves the world as it is; the count is that of the
  file's content.\<close>

lemma getFileLineCount_Inr:
  "getFileLineCount p w = (Inr n, w') \<Longrightarrow>
     w' = w \<and> \<not> read_denied w p \<and>
     (\<exists>data. files w p = Some data \<and> n = length (split_on CHR 0x0A data))"
  by (auto simp: getFileLineCount_def readFile_def split: option.splits if_splits)

lemma getFileLineCount_Inl: "getFileLineCount p w = (Inl e, w') \<Longrightarrow> w' = w"
  by (auto simp: getFileLineCount_def readFile_def split: option.splits if_splits)

lemma scan_files_selected:
  assumes "scan_files this fw fs acc w = (Inr found, w')"
    and "\<forall>f \<in> set acc. P f"
    and "\<And>p n. p \<in> set fs \<Longrightarrow> getFileLineCount p w = (Inr n, w) \<Longrightarrow>
            int n > maxLines (config this) \<Longrightarrow> P \<lparr>path = p, file_lines = n, framework = fw\<rparr>"
  shows "w' = w \<and> (\<forall>f \<in> set found. P f)"
  using assms
proof (induction fs arbitrary: acc)
  case Nil
  then show ?case by simp
next
  case (Cons a fs)
  obtain r w1 where g: "getFileLineCount a w = (r, w1)" by (cases "getFileLineCount a w")
  show ?case
  proof (cases r)
    case (Inl e)
    with g Cons.prems(1) show ?thesis by simp
  next
    case (Inr n)
    with g have w1: "w1 = w" using getFileLineCount_Inr by blast
    have step: "\<And>p n. p \<in> set fs \<Longrightarrow> getFileLineCount p w = (Inr n, w) \<Longrightarrow>
            int n > maxLines (config this) \<Longrightarrow> P \<lparr>path = p, file_lines = n, framework = fw\<rparr>"
      using Cons.prems(3) by simp
    show ?thesis
    proof (cases "int n > maxLines (config this)")
      case True
      from g Inr w1 True Cons.prems(1)
      have run: "scan_files this fw fs (acc @ [\<lparr>path = a, file_lines = n, framework = fw\<rparr>]) w
                   = (Inr found, w')"
        by simp
      have "P \<lparr>path = a, file_lines = n, framework = fw\<rparr>"
        using Cons.prems(3) [of a n] g Inr w1 True by simp
      with Cons.prems(2)
      have "\<forall>f \<in> set (acc @ [\<lparr>path = a, file_lines = n, framework = fw\<rparr>]). P f" by simp
      from Cons.IH [OF run this step] show ?thesis by simp
    next
      case False
      from g Inr w1 False Cons.prems(1)
      have run: "scan_files this fw fs acc w = (Inr found, w')" by simp
      from Cons.IH [OF run Cons.prems(2) step] show ?thesis by simp
    qed
  qed
qed

lemma scan_dirs_selected:
  assumes "scan_dirs this h fw dirs acc w = (Inr found, w')"
    and "\<forall>f \<in> set acc. P f"
    and "\<And>p n. getFileLineCount p w = (Inr n, w) \<Longrightarrow>
            int n > maxLines (config this) \<Longrightarrow> P \<lparr>path = p, file_lines = n, framework = fw\<rparr>"
  shows "w' = w \<and> (\<forall>f \<in> set found. P f)"
  using assms
proof (induction dirs arbitrary: acc)
  case Nil
  then show ?case by simp
next
  case (Cons dir dirs)
  let ?targetDir = "path_join (projectRoot this) dir"
  show ?case
  proof (cases "existsSync ?targetDir w")
    case False
    with Cons.prems(1) have "scan_dirs this h fw dirs acc w = (Inr found, w')"
      by (simp add: Let_def)
    from Cons.IH [OF this Cons.prems(2) Cons.prems(3)] show ?thesis by simp
  next
    case True
    let ?globbed = "glob h w
                   (?targetDir @ ''/**/*{'' @ join '','' (fileExtensions (config this)) @ ''}'')
                   (map (\<lambda>pattern. path_join (projectRoot this) pattern)
                        (excludePatterns (config this)))"
    obtain r w1 where s: "scan_files this fw ?globbed acc w = (r, w1)"
      by (cases "scan_files this fw ?globbed acc w")
    show ?thesis
    proof (cases r)
      case (Inl e)
      with s True Cons.prems(1) show ?thesis by (simp add: Let_def)
    next
      case (Inr found1)
      from s Inr have s1: "scan_files this fw ?globbed acc w = (Inr found1, w1)" by simp
      from scan_files_selected [of this fw ?globbed acc w found1 w1 P, OF s1 Cons.prems(2)]
        Cons.prems(3)
      have w1: "w1 = w" and sel: "\<forall>f \<in> set found1. P f" by blast+
      from s1 w1 True Cons.prems(1)
      have "scan_dirs this h fw dirs found1 w = (Inr found, w')" by (simp add: Let_def)
      from Cons.IH [OF this sel Cons.prems(3)] show ?thesis by simp
    qed
  qed
qed

text \<open>
  Claim C10: when \<open>scan\<close> returns, every \<open>FileToRefactor\<close> it returns carries, as its line
  count, the number of lines of the file at its path, and this number is strictly
  greater than \<open>config.maxLines\<close>; a file with exactly \<open>maxLines\<close> lines (or fewer) is not
  among the returned files.  Scanning leaves the world unchanged.
\<close>

theorem scan_selects_only_files_over_maxLines:
  assumes "scan this h w = (Inr found, w')"
  shows "w' = w \<and>
         (\<forall>f \<in> set found.
            int (file_lines f) > maxLines (config this) \<and>
            (\<exists>data. files w (path f) = Some data \<and>
               file_lines f = length (split_on CHR 0x0A data))) \<and>
         (\<forall>p data. files w p = Some data \<longrightarrow>
            int (length (split_on CHR 0x0A data)) \<le> maxLines (config this) \<longrightarrow>
            p \<notin> path ` set found)"
proof -
  let ?P = "\<lambda>f. int (file_lines f) > maxLines (config this) \<and>
            (\<exists>data. files w (path f) = Some data \<and>
               file_lines f = length (split_on CHR 0x0A data))"
  have step: "?P \<lparr>path = p, file_lines = n, framework = detectFramework h w\<rparr>"
    if "getFileLineCount p w = (Inr n, w)" and "int n > maxLines (config this)" for p n
    using getFileLineCount_Inr [OF that(1)] that(2) by simp
  from assms have "scan_dirs this h (detectFramework h w) (targetDirectories (config this)) [] w
                     = (Inr found, w')"
    by (simp add: scan_def)
  from scan_dirs_selected [of this h _ _ "[]" w found w' ?P, OF this _ step]
  have w: "w' = w" and sel: "\<forall>f \<in> set found. ?P f" by simp_all
  have "p \<notin> path ` set found"
    if "files w p = Some data" and "int (length (split_on CHR 0x0A data)) \<le> maxLines (config this)"
    for p data
  proof
    assume "p \<in> path ` set found"
    then obtain f where f: "f \<in> set found" "path f = p" by auto
    with sel that(1) have "int (length (split_on CHR 0x0A data)) > maxLines (config this)"
      by auto
    with that(2) show False by simp
  qed
  with w sel show ?thesis by blast
qed

text \<open>The theorem at a project with a file of three lines and a file of two lines, for
  \<open>maxLines = 2\<close>: only the first is returned.\<close>

theorem scan_selects_witness:
  "scan (example_engine\<lparr>config := (config example_engine)\<lparr>maxLines := 2\<rparr>\<rparr>)
        (example_helpers\<lparr>glob := (\<lambda>w pattern ignore.
            if startsWith pattern ''/p/src/'' then [''/p/src/a.ts'', ''/p/src/b.ts''] else [])\<rparr>)
        (example_project\<lparr>files := (\<lambda>p. None)
            (''/p/src/a.ts'' \<mapsto> join [CHR 0x0A] [''let a;'', ''let b;'', ''let c;''],
             ''/p/src/b.ts'' \<mapsto> join [CHR 0x0A] [''let a;'', ''let b;''])\<rparr>)
     = (Inr [\<lparr>path = ''/p/src/a.ts'', file_lines = 3, framework = ''unknown''\<rparr>],
        example_project\<lparr>files := (\<lambda>p. None)
            (''/p/src/a.ts'' \<mapsto> join [CHR 0x0A] [''let a;'', ''let b;'', ''let c;''],
             ''/p/src/b.ts'' \<mapsto> join [CHR 0x0A] [''let a;'', ''let b;''])\<rparr>) \<and>
   ''/p/src/b.ts'' \<notin> path ` set [\<lparr>path = ''/p/src/a.ts'', file_lines = 3, framework = ''unknown''\<rparr>]"
proof -
  let ?E = "example_engine\<lparr>config := (config example_engine)\<lparr>maxLines := 2\<rparr>\<rparr>"
  let ?H = "example_helpers\<lparr>glob := (\<lambda>w pattern ignore.
            if startsWith pattern ''/p/src/'' then [''/p/src/a.ts'', ''/p/src/b.ts''] else [])\<rparr>"
  let ?W = "example_project\<lparr>files := (\<lambda>p. None)
            (''/p/src/a.ts'' \<mapsto> join [CHR 0x0A] [''let a;'', ''let b;'', ''let c;''],
             ''/p/src/b.ts'' \<mapsto> join [CHR 0x0A] [''let a;'', ''let b;''])\<rparr>"
  let ?F = "\<lparr>path = ''/p/src/a.ts'', file_lines = 3, framework = ''unknown''\<rparr>"
  have "fst (scan ?E ?H ?W) = Inr [?F]" by code_simp
  then have s: "scan ?E ?H ?W = (Inr [?F], snd (scan ?E ?H ?W))" by (simp add: prod_eq_iff)
  have b: "files ?W ''/p/src/b.ts'' = Some (join [CHR 0x0A] [''let a;'', ''let b;''])" by simp
  have n: "int (length (split_on CHR 0x0A (join [CHR 0x0A] [''let a;'', ''let b;'']))) \<le>
             maxLines (config ?E)"
    by (simp add: example_engine_def)
  from scan_selects_only_files_over_maxLines [OF s] b n
  have "snd (scan ?E ?H ?W) = ?W" and "''/p/src/b.ts'' \<notin> path ` set [?F]" by blast+
  with s show ?thesis by simp
qed

subsection \<open>Dry run\<close>

lemma getFileLineCount_world: "getFileLineCount p w = (r, w') \<Longrightarrow> w' = w"
  by (auto simp: getFileLineCount_def readFile_def split: option.splits if_splits)

lemma scan_files_world: "scan_files this fw fs acc w = (r, w') \<Longrightarrow> w' = w"
proof (induction fs arbitrary: acc)
  case Nil
  then show ?case by simp
next
  case (Cons a fs)
  obtain r1 w1 where g: "getFileLineCount a w = (r1, w1)" by (cases "getFileLineCount a w")
  then have w1: "w1 = w" by (rule getFileLineCount_world)
  show ?case
  proof (cases r1)
    case (Inl e)
    with g w1 Cons.prems show ?thesis by simp
  next
    case (Inr n)
    with g w1 Cons.prems Cons.IH show ?thesis by (auto split: if_splits)
  qed
qed

lemma scan_dirs_world: "scan_dirs this h fw dirs acc w = (r, w') \<Longrightarrow> w' = w"
proof (induction dirs arbitrary: acc)
  case Nil
  then show ?case by simp
next
  case (Cons dir dirs)
  let ?targetDir = "path_join (projectRoot this) dir"
  let ?globbed = "glob h w
                   (?targetDir @ ''/**/*{'' @ join '','' (fileExtensions (config this)) @ ''}'')
                   (map (\<lambda>pattern. path_join (projectRoot this) pattern)
                        (excludePatterns (config this)))"
  obtain r1 w1 where s: "scan_files this fw ?globbed acc w = (r1, w1)"
    by (cases "scan_files this fw ?globbed acc w")
  then have w1: "w1 = w" by (rule scan_files_world)
  show ?case
  proof (cases "existsSync ?targetDir w")
    case False
    with Cons.prems Cons.IH show ?thesis by (simp add: Let_def)
  next
    case True
    show ?thesis
    proof (cases r1)
      case (Inl e)
      with s w1 True Cons.prems show ?thesis by (simp add: Let_def)
    next
      case (Inr found1)
      with s w1 True Cons.prems have "scan_dirs this h fw dirs found1 w = (r, w')"
        by (simp add: Let_def)
      then show ?thesis by (rule Cons.IH)
    qed
  qed
qed

text \<open>The files that \<open>scan\<close> returns have been read.\<close>

lemma scan_readable:
  assumes "scan this h w = (Inr found, w')"
  shows "\<forall>f \<in> set found. \<not> read_denied w (path f) \<and> (\<exists>data. files w (path f) = Some data)"
proof -
  let ?P = "\<lambda>f. \<not> read_denied w (path f) \<and> (\<exists>data. files w (path f) = Some data)"
  have step: "?P \<lparr>path = p, file_lines = n, framework = detectFramework h w\<rparr>"
    if "getFileLineCount p w = (Inr n, w)" and "int n > maxLines (config this)" for p n
    using getFileLineCount_Inr [OF that(1)] by auto
  from assms have "scan_dirs this h (detectFramework h w) (targetDirectories (config this)) [] w
                     = (Inr found, w')"
    by (simp add: scan_def)
  from scan_dirs_selected [of this h _ _ "[]" w found w' ?P, OF this _ step]
  show ?thesis by simp
qed

lemma specific_file_world: "specific_file this name w = (r, w') \<Longrightarrow> w' = w"
  by (auto simp: specific_file_def Let_def dest: getFileLineCount_world
      split: if_splits prod.splits sum.splits)

lemma specific_file_readable:
  assumes "specific_file this name w = (Inr found, w')"
  shows "\<forall>f \<in> set found. \<not> read_denied w (path f) \<and> (\<exists>data. files w (path f) = Some data)"
  using assms
  by (auto simp: specific_file_def Let_def dest!: getFileLineCount_Inr
      split: if_splits prod.splits sum.splits)

text \<open>The loop of \<open>run\<close> in a dry run, over files that can be read.\<close>

lemma run_files_dry:
  assumes "dryRun options = Some True"
    and "\<forall>f \<in> set fs. \<not> read_denied w (path f) \<and> (\<exists>data. files w (path f) = Some data)"
    and "\<And>p text. files w p = Some text \<Longrightarrow>
           Q \<lparr>success = True, error = None, originalFile = p,
              newFiles = suggestedFiles (analyzeFile h p text),
              linesReduced = estimatedReduction (analyzeFile h p text),
              analysis = Some (analysis' (analyzeFile h p text))\<rparr>"
  shows "\<exists>rs. run_files this h options fs acc w = (acc @ rs, w) \<and>
           map originalFile rs = map path fs \<and> (\<forall>res \<in> set rs. Q res)"
  using assms(2)
proof (induction fs arbitrary: acc)
  case Nil
  then show ?case by simp
next
  case (Cons f fs)
  from Cons.prems obtain body where
    t: "files w (path f) = Some body" "\<not> read_denied w (path f)" by auto
  let ?res = "\<lparr>success = True, error = None, originalFile = path f,
              newFiles = suggestedFiles (analyzeFile h (path f) body),
              linesReduced = estimatedReduction (analyzeFile h (path f) body),
              analysis = Some (analysis' (analyzeFile h (path f) body))\<rparr>"
  have one: "run_one this h options f w = (Inr ?res, w)"
    using assms(1) t by (simp add: run_one_def readFile_def)
  have q: "Q ?res" by (rule assms(3) [OF t(1)])
  from Cons.prems
  have "\<forall>f \<in> set fs. \<not> read_denied w (path f) \<and> (\<exists>data. files w (path f) = Some data)" by simp
  from Cons.IH [OF this, of "acc @ [?res]"] obtain rs where
    rs: "run_files this h options fs (acc @ [?res]) w = ((acc @ [?res]) @ rs, w)"
        "map originalFile rs = map path fs" "\<forall>res \<in> set rs. Q res"
    by blast
  have "run_files this h options (f # fs) acc w = (acc @ (?res # rs), w)"
    using one rs(1) by simp
  moreover have "map originalFile (?res # rs) = map path (f # fs)"
    using rs(2) by simp
  moreover have "\<forall>res \<in> set (?res # rs). Q res"
    using q rs(3) by simp
  ultimately show ?case by blast
qed

text \<open>
  Claim C9: a call of \<open>run\<close> with \<open>options.dryRun = true\<close> leaves the world as it was,
  whether it returns or throws: no file is created, written or deleted (so no backup is
  made, and the content of every target file is unchanged), and the clock is not read.
  When it returns, the results name, in order, the files to refactor (those that \<open>scan\<close>
  returns, or the file of \<open>options.specificFile\<close>); every result has \<open>success = true\<close>
  and no error, and carries the analysis of the file it names: the suggested files, the
  estimated reduction and the analysis lines that \<open>analyzeFile\<close> computes from the content
  of that file.
\<close>

theorem dry_run_changes_nothing:
  assumes "dryRun options = Some True"
    and "run this h options w = (r, w')"
  shows "w' = w \<and>
         (\<forall>results. r = Inr results \<longrightarrow>
            (\<exists>filesToRefactor.
               (case specificFile options of
                  None \<Rightarrow> scan this h w
                | Some name \<Rightarrow> if name = [] then scan this h w else specific_file this name w)
                 = (Inr filesToRefactor, w) \<and>
               map originalFile results = map path filesToRefactor) \<and>
            (\<forall>res \<in> set results.
               success res \<and> error res = None \<and>
               (\<exists>text. files w (originalFile res) = Some text \<and>
                  newFiles res = suggestedFiles (analyzeFile h (originalFile res) text) \<and>
                  linesReduced res = estimatedReduction (analyzeFile h (originalFile res) text) \<and>
                  analysis res = Some (analysis' (analyzeFile h (originalFile res) text)))))"
proof -
  let ?Q = "\<lambda>res. success res \<and> error res = None \<and>
               (\<exists>text. files w (originalFile res) = Some text \<and>
                  newFiles res = suggestedFiles (analyzeFile h (originalFile res) text) \<and>
                  linesReduced res = estimatedReduction (analyzeFile h (originalFile res) text) \<and>
                  analysis res = Some (analysis' (analyzeFile h (originalFile res) text)))"
  let ?chosen = "case specificFile options of
              None \<Rightarrow> scan this h w
            | Some name \<Rightarrow> if name = [] then scan this h w else specific_file this name w"
  obtain r0 w0 where c: "?chosen = (r0, w0)" by (cases ?chosen)
  have w0: "w0 = w"
    using c scan_dirs_world [of this h "detectFramework h w" "targetDirectories (config this)" "[]" w r0 w0]
      specific_file_world [of this _ w r0 w0]
    by (auto simp: scan_def split: option.splits if_splits)
  have unf: "run this h options w =
      (case (r0, w0) of
         (Inl e, w') \<Rightarrow> (Inl e, w')
       | (Inr filesToRefactor, w') \<Rightarrow>
           if filesToRefactor = [] then (Inr [], w')
           else (case run_files this h options filesToRefactor [] w' of
                   (results, w'') \<Rightarrow> (Inr results, w'')))"
    unfolding run_def c by (rule refl)
  show ?thesis
  proof (cases r0)
    case (Inl e)
    with unf w0 assms(2) have "r = Inl e \<and> w' = w" by simp
    then show ?thesis by simp
  next
    case (Inr fs)
    have readable: "\<forall>f \<in> set fs. \<not> read_denied w (path f) \<and> (\<exists>data. files w (path f) = Some data)"
      using c Inr scan_readable [of this h w fs w0] specific_file_readable [of this _ w fs w0]
      by (auto split: option.splits if_splits)
    have "\<exists>rs. run_files this h options fs [] w = ([] @ rs, w) \<and>
            map originalFile rs = map path fs \<and> (\<forall>res \<in> set rs. ?Q res)"
      by (rule run_files_dry [OF assms(1) readable]) simp
    then obtain rs where rs: "run_files this h options fs [] w = (rs, w)"
      "map originalFile rs = map path fs" "\<forall>res \<in> set rs. ?Q res"
      by auto
    from rs(2) have empty: "rs = []" if "fs = []" using that by simp
    from assms(2) unf Inr w0 rs(1) empty have res: "r = Inr rs" "w' = w"
      by (cases "fs = []"; simp)+
    from c Inr w0 have chosen: "?chosen = (Inr fs, w)" by simp
    have "\<exists>filesToRefactor. ?chosen = (Inr filesToRefactor, w) \<and>
            map originalFile rs = map path filesToRefactor"
      using chosen rs(2) by blast
    with res rs(3) show ?thesis by simp
  qed
qed

text \<open>The theorem at a dry run on the file of the example project.\<close>

theorem dry_run_witness:
  "snd (run example_engine example_helpers
          \<lparr>dryRun = Some True, createBackups = None, verbose = None,
           specificFile = Some ''src/a.ts''\<rparr> example_project) = example_project \<and>
   (case fst (run example_engine example_helpers
          \<lparr>dryRun = Some True, createBackups = None, verbose = None,
           specificFile = Some ''src/a.ts''\<rparr> example_project) of
      Inl e \<Rightarrow> None
    | Inr results \<Rightarrow>
        Some (map (\<lambda>res. (success res, error res, originalFile res, newFiles res, analysis res))
                results))
     = Some [(True, None, ''/p/src/a.ts'', [''/p/src/a-part1.ts''], Some [])]"
proof -
  let ?O = "\<lparr>dryRun = Some True, createBackups = None, verbose = None,
           specificFile = Some ''src/a.ts''\<rparr>"
  have d: "dryRun ?O = Some True" by simp
  have r: "run example_engine example_helpers ?O example_project
             = (fst (run example_engine example_helpers ?O example_project),
                snd (run example_engine example_helpers ?O example_project))"
    by simp
  have v: "(case fst (run example_engine example_helpers ?O example_project) of
      Inl e \<Rightarrow> None
    | Inr results \<Rightarrow>
        Some (map (\<lambda>res. (success res, error res, originalFile res, newFiles res, analysis res))
                results))
     = Some [(True, None, ''/p/src/a.ts'', [''/p/src/a-part1.ts''], Some [])]"
    by code_simp
  from dry_run_changes_nothing [OF d r] v show ?thesis by blast
qed

subsection \<open>Rollback that fails\<close>






end
